theory Spec2Isabelle
  imports Complex_Main "HOL-Library.Word" "HOL-Library.Multiset"
begin

unbundle bit_operations_syntax

section \<open>Data model of \<^verbatim>\<open>RenderSceneImpl\<close> (src/renderer/render_scene.cpp)\<close>

text \<open>
  The scene is embedded as a record of the members the visibility, level-of-detail and
  light-influence code touches; every member function becomes a function from the scene to
  an error or the updated scene. \<^verbatim>\<open>float\<close> values are read as real numbers (no
  rounding), \<^verbatim>\<open>int\<close> indices as integers, \<^verbatim>\<open>u64\<close> layer masks as 64-bit words.
  \<^verbatim>\<open>Entity\<close> and \<^verbatim>\<open>ComponentHandle\<close> are structs holding one \<^verbatim>\<open>int index\<close>; they are
  represented by that index.
\<close>

type_synonym Entity = int
type_synonym ComponentHandle = int
type_synonym ModelPtr = nat
type_synonym MaterialPtr = nat
type_synonym u64 = "64 word"

text \<open>
  Modelled from the spec: the sentinel entity and handle and the validity test, declared in
  the engine headers (absent). The spec calls them the invalid sentinel; an index is valid
  when it is not negative.
\<close>

definition INVALID_ENTITY :: Entity where
  "INVALID_ENTITY = -1"

definition INVALID_COMPONENT :: ComponentHandle where
  "INVALID_COMPONENT = -1"

definition isValid :: "int \<Rightarrow> bool" where
  "isValid e = (0 \<le> e)"

text \<open>
  Every way the code can stop is a value: a failed \<^verbatim>\<open>ASSERT\<close>, an array index outside
  the array, a hash-map key that is not there, a null pointer that is dereferenced.
\<close>

datatype error = AssertFailed | IndexOutOfRange | KeyNotFound | NullDeref

definition bindE :: "error + 'a \<Rightarrow> ('a \<Rightarrow> error + 'b) \<Rightarrow> error + 'b" where
  "bindE m f = (case m of Inl e \<Rightarrow> Inl e | Inr v \<Rightarrow> f v)"

definition deref :: "'a option \<Rightarrow> error + 'a" where
  "deref p = (case p of None \<Rightarrow> Inl NullDeref | Some v \<Rightarrow> Inr v)"

definition assertE :: "bool \<Rightarrow> error + unit" where
  "assertE b = (if b then Inr () else Inl AssertFailed)"

datatype Vec3 = Vec3 (vx: real) (vy: real) (vz: real)

definition vsub :: "Vec3 \<Rightarrow> Vec3 \<Rightarrow> Vec3" where
  "vsub a b = Vec3 (vx a - vx b) (vy a - vy b) (vz a - vz b)"

definition squaredLength :: "Vec3 \<Rightarrow> real" where
  "squaredLength v = vx v * vx v + vy v * vy v + vz v * vz v"

datatype Matrix = Matrix (axes: "real list") (getTranslation: Vec3)

datatype Sphere = Sphere (position: Vec3) (radius: real)

record 'v Frustum =
  fov :: real
  volume :: 'v

record Mesh =
  material :: "MaterialPtr option"
  attribute_array_offset :: int
  attribute_array_size :: int
  indices_offset :: int
  indices_count :: int

text \<open>
  \<^verbatim>\<open>Mesh* meshes\<close> of an instance is null, points at the model's own mesh array
  (\<^verbatim>\<open>&model->getMesh(0)\<close>) or at a private array the instance allocated.
\<close>

datatype MeshArray = ModelMeshes ModelPtr | CustomMeshes "Mesh list"

datatype Pose = Pose (bone_count: int)

datatype InstanceType = RIGID | SKINNED | MULTILAYER

record ModelInstance =
  entity :: Entity
  model :: "ModelPtr option"
  pose :: "Pose option"
  matrix :: Matrix
  meshes :: "MeshArray option"
  mesh_count :: int
  custom_meshes :: bool
  itype :: InstanceType

record PointLight =
  m_diffuse_color :: Vec3
  m_specular_color :: Vec3
  m_diffuse_intensity :: real
  m_specular_intensity :: real
  m_entity :: Entity
  m_component :: ComponentHandle
  m_fov :: real
  m_attenuation_param :: real
  m_range :: real
  m_cast_shadows :: bool

text \<open>\<^verbatim>\<open>&model_instance->meshes[j]\<close>: a base array and an offset into it.\<close>

datatype MeshRef = MeshRef "MeshArray option" int

record ModelInstanceMesh =
  model_instance :: ComponentHandle
  mesh :: MeshRef

datatype Resource = ModelRes ModelPtr | MaterialRes MaterialPtr

datatype ComponentType = MODEL_INSTANCE_TYPE | POINT_LIGHT_TYPE

text \<open>
  Calls into collaborators that only receive a notification are kept as a trace: the
  universe's component registry, the instance created/destroyed delegates and the job
  manager's \<^verbatim>\<open>schedule\<close>.
\<close>

datatype Event =
    AddComponent Entity ComponentType ComponentHandle
  | DestroyComponent Entity ComponentType ComponentHandle
  | ModelInstanceCreated ComponentHandle
  | ModelInstanceDestroyed ComponentHandle
  | JobScheduled nat

type_synonym CullingSystem = "(ComponentHandle \<times> Sphere \<times> u64) list"

record Scene =
  m_model_instances :: "ModelInstance list"
  m_point_lights :: "PointLight list"
  m_point_lights_map :: "(ComponentHandle \<times> int) list"
  m_light_influenced_geometry :: "ComponentHandle list list"
  m_point_light_last_cmp :: ComponentHandle
  m_culling_system :: CullingSystem
  m_model_loaded_callbacks :: "(ModelPtr \<times> int) list"
  m_temporary_infos :: "ModelInstanceMesh list list"
  m_jobs :: "nat list"
  m_lod_multiplier :: real
  ref_count :: "Resource \<Rightarrow> int"
  events :: "Event list"

text \<open>
  The collaborators whose code is not part of this file are parameters: the transform store
  (\<^verbatim>\<open>Universe\<close>), the loaded assets (\<^verbatim>\<open>Model\<close>, \<^verbatim>\<open>Material\<close>), the frustum
  construction and test of \<^verbatim>\<open>engine/geometry.h\<close>, \<^verbatim>\<open>Math::degreesToRadians\<close>, the way
  the culling system splits its matches into sub-results, the resource a path names, and
  the value of a default-constructed \<^verbatim>\<open>ModelInstance\<close>.
\<close>

record 'v Env =
  getPosition :: "Entity \<Rightarrow> Vec3"
  getScale :: "Entity \<Rightarrow> real"
  getMatrix :: "Entity \<Rightarrow> Matrix"
  isReady :: "ModelPtr \<Rightarrow> bool"
  getBoundingRadius :: "ModelPtr \<Rightarrow> real"
  getMeshCount :: "ModelPtr \<Rightarrow> int"
  getMesh :: "ModelPtr \<Rightarrow> int \<Rightarrow> Mesh"
  getBoneCount :: "ModelPtr \<Rightarrow> int"
  getLODMeshIndices :: "ModelPtr \<Rightarrow> real \<Rightarrow> int \<times> int"
  getRenderLayerMask :: "MaterialPtr \<Rightarrow> u64"
  getLayersCount :: "MaterialPtr \<Rightarrow> int"
  computeOrtho :: "Vec3 \<Rightarrow> Vec3 \<Rightarrow> Vec3 \<Rightarrow> real \<Rightarrow> real \<Rightarrow> real \<Rightarrow> real \<Rightarrow> 'v Frustum"
  isSphereInside :: "'v Frustum \<Rightarrow> Vec3 \<Rightarrow> real \<Rightarrow> bool"
  degreesToRadians :: "real \<Rightarrow> real"
  subresults :: "ComponentHandle list \<Rightarrow> ComponentHandle list list"
  resourceOfPath :: "string \<Rightarrow> ModelPtr"
  emplaced :: ModelInstance

section \<open>Containers\<close>

text \<open>
  Modelled from the spec: \<^verbatim>\<open>Array\<close> of \<^verbatim>\<open>engine/array.h\<close> (absent). Indexing outside
  the array is the invalid access the spec makes a failed assertion. The spec does not
  describe the removal operations; they are read as their names say: \<^verbatim>\<open>erase\<close> keeps
  the order (\<open>remove1\<close> for the loop that erases the first match), \<^verbatim>\<open>eraseFast\<close>
  moves the last element into the hole, \<^verbatim>\<open>eraseItemFast\<close> does so for the first element
  equal to the item.
\<close>

definition elemAt :: "'a list \<Rightarrow> int \<Rightarrow> error + 'a" where
  "elemAt xs i = (if 0 \<le> i \<and> i < int (length xs) then Inr (xs ! nat i) else Inl IndexOutOfRange)"

definition eraseFast :: "'a list \<Rightarrow> nat \<Rightarrow> 'a list" where
  "eraseFast xs j =
     (if j < length xs
      then (if j = length xs - 1 then butlast xs else butlast (xs[j := last xs]))
      else xs)"

fun indexOf :: "'a list \<Rightarrow> 'a \<Rightarrow> nat option" where
  "indexOf [] c = None"
| "indexOf (x # xs) c = (if x = c then Some 0 else map_option Suc (indexOf xs c))"

definition eraseItemFast :: "'a list \<Rightarrow> 'a \<Rightarrow> 'a list" where
  "eraseItemFast xs c = (case indexOf xs c of None \<Rightarrow> xs | Some j \<Rightarrow> eraseFast xs j)"

text \<open>
  Modelled from the spec: \<^verbatim>\<open>HashMap::operator[]\<close> of \<^verbatim>\<open>engine/hash_map.h\<close> (absent);
  reading a key that was never inserted is an invalid access.
\<close>

definition lookupKey :: "('k \<times> 'a) list \<Rightarrow> 'k \<Rightarrow> error + 'a" where
  "lookupKey m k = (case map_of m k of None \<Rightarrow> Inl KeyNotFound | Some v \<Rightarrow> Inr v)"

definition insertKey :: "('k \<times> 'a) list \<Rightarrow> 'k \<Rightarrow> 'a \<Rightarrow> ('k \<times> 'a) list" where
  "insertKey m k v = (if k \<in> fst ` set m then m else m @ [(k, v)])"

definition eraseKey :: "('k \<times> 'a) list \<Rightarrow> 'k \<Rightarrow> ('k \<times> 'a) list" where
  "eraseKey m k = filter (\<lambda>p. fst p \<noteq> k) m"

definition assignKey :: "('k \<times> 'a) list \<Rightarrow> 'k \<Rightarrow> 'a \<Rightarrow> ('k \<times> 'a) list" where
  "assignKey m k v = map (\<lambda>p. if fst p = k then (k, v) else p) m"

section \<open>Broad-phase culling index\<close>

text \<open>
  Modelled from the spec: \<^verbatim>\<open>CullingSystem\<close> of \<^verbatim>\<open>renderer/culling_system.h\<close>
  (absent). One bounding sphere and one layer mask per handle; \<open>add\<close> asserts when the
  handle is already present; a query matches the objects whose sphere intersects the
  frustum and whose layer mask has a bit in common with the query mask, and returns them
  split into sub-results.
\<close>

definition isAdded :: "CullingSystem \<Rightarrow> ComponentHandle \<Rightarrow> bool" where
  "isAdded cs h = (h \<in> fst ` set cs)"

definition addStatic :: "CullingSystem \<Rightarrow> ComponentHandle \<Rightarrow> Sphere \<Rightarrow> u64 \<Rightarrow> error + CullingSystem" where
  "addStatic cs h sphere layer_mask =
     (if isAdded cs h then Inl AssertFailed else Inr (cs @ [(h, sphere, layer_mask)]))"

definition removeStatic :: "CullingSystem \<Rightarrow> ComponentHandle \<Rightarrow> CullingSystem" where
  "removeStatic cs h = filter (\<lambda>p. fst p \<noteq> h) cs"

definition updateBoundingSphere :: "CullingSystem \<Rightarrow> Sphere \<Rightarrow> ComponentHandle \<Rightarrow> CullingSystem" where
  "updateBoundingSphere cs sphere h = map (\<lambda>p. if fst p = h then (h, sphere, snd (snd p)) else p) cs"

definition getSphere :: "CullingSystem \<Rightarrow> ComponentHandle \<Rightarrow> error + Sphere" where
  "getSphere cs h = (case map_of cs h of None \<Rightarrow> Inl KeyNotFound | Some p \<Rightarrow> Inr (fst p))"

definition matching :: "'v Env \<Rightarrow> CullingSystem \<Rightarrow> 'v Frustum \<Rightarrow> u64 \<Rightarrow> ComponentHandle list" where
  "matching env cs frustum layer_mask =
     map fst (filter (\<lambda>p. isSphereInside env frustum (position (fst (snd p))) (radius (fst (snd p)))
                          \<and> snd (snd p) AND layer_mask \<noteq> 0) cs)"

definition cullToFrustum :: "'v Env \<Rightarrow> CullingSystem \<Rightarrow> 'v Frustum \<Rightarrow> u64 \<Rightarrow> ComponentHandle list list" where
  "cullToFrustum env cs frustum layer_mask = subresults env (matching env cs frustum layer_mask)"

section \<open>Asset reference counts\<close>

text \<open>
  Modelled from the spec: the asset system's manual reference counting
  (\<^verbatim>\<open>ResourceManagerBase::load\<close> and \<^verbatim>\<open>unload\<close>, absent): loading takes one
  reference of the resource, unloading gives one back.
\<close>

definition load :: "Resource \<Rightarrow> Scene \<Rightarrow> Scene" where
  "load res s = s\<lparr>ref_count := (ref_count s)(res := ref_count s res + 1)\<rparr>"

definition unload :: "Resource \<Rightarrow> Scene \<Rightarrow> Scene" where
  "unload res s = s\<lparr>ref_count := (ref_count s)(res := ref_count s res - 1)\<rparr>"

text \<open>Modelled from the spec: \<^verbatim>\<open>Path::isValid\<close> (absent); the empty path names no asset.\<close>

definition pathIsValid :: "string \<Rightarrow> bool" where
  "pathIsValid p = (p \<noteq> [])"

section \<open>Object table\<close>

definition sentinel :: "ModelInstance \<Rightarrow> ModelInstance" where
  "sentinel d = d\<lparr>entity := INVALID_ENTITY, model := None, pose := None\<rparr>"

function grow_instances :: "ModelInstance \<Rightarrow> int \<Rightarrow> ModelInstance list \<Rightarrow> ModelInstance list" where
  "grow_instances d e xs =
     (if e \<ge> int (length xs) then grow_instances d e (xs @ [sentinel d]) else xs)"
  by pat_completeness auto
termination
  by (relation "measure (\<lambda>(d, e, xs). nat (e + 1 - int (length xs)))") auto

definition createModelInstance :: "'v Env \<Rightarrow> Entity \<Rightarrow> Scene \<Rightarrow> error + (ComponentHandle \<times> Scene)" where
  "createModelInstance env e s =
     (let tbl = grow_instances (emplaced env) e (m_model_instances s) in
      bindE (elemAt tbl e) (\<lambda>r0.
        let r = r0\<lparr>entity := e, model := None, meshes := None, pose := None,
                    custom_meshes := False, mesh_count := 0, matrix := getMatrix env e\<rparr>;
            cmp = e
        in Inr (cmp, s\<lparr>m_model_instances := tbl[nat e := r],
                        events := events s @ [AddComponent e MODEL_INSTANCE_TYPE cmp,
                                              ModelInstanceCreated cmp]\<rparr>)))"

definition getModelInstanceComponent :: "Scene \<Rightarrow> Entity \<Rightarrow> error + ComponentHandle" where
  "getModelInstanceComponent s e =
     (let cmp = e in
      if cmp \<ge> int (length (m_model_instances s)) then Inr INVALID_COMPONENT
      else bindE (elemAt (m_model_instances s) cmp) (\<lambda>r.
        if \<not> isValid (entity r) then Inr INVALID_COMPONENT else Inr cmp))"

definition meshAt :: "'v Env \<Rightarrow> ModelInstance \<Rightarrow> int \<Rightarrow> error + Mesh" where
  "meshAt env r i =
     (case meshes r of
        None \<Rightarrow> Inl NullDeref
      | Some (ModelMeshes m) \<Rightarrow> Inr (getMesh env m i)
      | Some (CustomMeshes ms) \<Rightarrow> elemAt ms i)"

function layerMaskLoop :: "'v Env \<Rightarrow> ModelPtr \<Rightarrow> int \<Rightarrow> u64 \<Rightarrow> error + u64" where
  "layerMaskLoop env m i layer_mask =
     (if i < getMeshCount env m
      then (case material (getMesh env m i) of
              None \<Rightarrow> Inl NullDeref
            | Some mat \<Rightarrow> layerMaskLoop env m (i + 1) (layer_mask OR getRenderLayerMask env mat))
      else Inr layer_mask)"
  by pat_completeness auto
termination
  by (relation "measure (\<lambda>(env, m, i, layer_mask). nat (getMeshCount env m - i))") auto

definition getLayerMask :: "'v Env \<Rightarrow> ModelInstance \<Rightarrow> error + u64" where
  "getLayerMask env r =
     (case model r of
        None \<Rightarrow> Inl NullDeref
      | Some m \<Rightarrow> if \<not> isReady env m then Inr 1 else layerMaskLoop env m 0 0)"

function unloadMeshMaterials :: "'v Env \<Rightarrow> ModelInstance \<Rightarrow> int \<Rightarrow> int \<Rightarrow> Scene \<Rightarrow> error + Scene" where
  "unloadMeshMaterials env r i n s =
     (if i < n
      then (case meshAt env r i of
              Inl e \<Rightarrow> Inl e
            | Inr msh \<Rightarrow>
                (case material msh of
                   None \<Rightarrow> Inl NullDeref
                 | Some mat \<Rightarrow> unloadMeshMaterials env r (i + 1) n (unload (MaterialRes mat) s)))
      else Inr s)"
  by pat_completeness auto
termination
  by (relation "measure (\<lambda>(env, r, i, n, s). nat (n - i))") auto

function loadMeshMaterials :: "'v Env \<Rightarrow> ModelInstance \<Rightarrow> int \<Rightarrow> int \<Rightarrow> Scene \<Rightarrow> error + Scene" where
  "loadMeshMaterials env r i n s =
     (if i < n
      then (case meshAt env r i of
              Inl e \<Rightarrow> Inl e
            | Inr msh \<Rightarrow>
                (case material msh of
                   None \<Rightarrow> Inl NullDeref
                 | Some mat \<Rightarrow> loadMeshMaterials env r (i + 1) n (load (MaterialRes mat) s)))
      else Inr s)"
  by pat_completeness auto
termination
  by (relation "measure (\<lambda>(env, r, i, n, s). nat (n - i))") auto

definition freeCustomMeshes :: "'v Env \<Rightarrow> ModelInstance \<Rightarrow> Scene \<Rightarrow> error + (ModelInstance \<times> Scene)" where
  "freeCustomMeshes env r s =
     (if \<not> custom_meshes r then Inr (r, s)
      else bindE (unloadMeshMaterials env r 0 (mesh_count r) s) (\<lambda>s'.
             Inr (r\<lparr>meshes := None, custom_meshes := False, mesh_count := 0\<rparr>, s')))"

definition emptyMesh :: Mesh where
  "emptyMesh = \<lparr>material = None, attribute_array_offset = 0, attribute_array_size = 0,
                indices_offset = 0, indices_count = 0\<rparr>"

function copyMeshes :: "'v Env \<Rightarrow> ModelInstance \<Rightarrow> int \<Rightarrow> int \<Rightarrow> int \<Rightarrow> Mesh list \<Rightarrow> error + Mesh list" where
  "copyMeshes env r i n cap acc =
     (if i < n
      then (if i \<ge> cap then Inl IndexOutOfRange
            else (case meshAt env r i of
                    Inl e \<Rightarrow> Inl e
                  | Inr msh \<Rightarrow> copyMeshes env r (i + 1) n cap (acc @ [msh])))
      else Inr acc)"
  by pat_completeness auto
termination
  by (relation "measure (\<lambda>(env, r, i, n, cap, acc). nat (n - i))") auto

text \<open>
  \<^verbatim>\<open>allocateCustomMeshes\<close>: the new array has \<open>count\<close> slots; the old meshes are copied
  to its front (a write past \<open>count\<close> is an invalid access), the rest are empty meshes.
  With no old array the slots below \<open>mesh_count\<close> would stay uninitialised; the model
  fails there.
\<close>

definition allocateCustomMeshes :: "'v Env \<Rightarrow> ModelInstance \<Rightarrow> int \<Rightarrow> Scene \<Rightarrow> error + (ModelInstance \<times> Scene)" where
  "allocateCustomMeshes env r cnt s =
     (if custom_meshes r \<and> mesh_count r = cnt then Inr (r, s)
      else if model r = None then Inl AssertFailed
      else bindE (if meshes r \<noteq> None
                  then bindE (copyMeshes env r 0 (mesh_count r) cnt []) (\<lambda>copied.
                         bindE (if custom_meshes r
                                then unloadMeshMaterials env r cnt (mesh_count r) s
                                else loadMeshMaterials env r 0 (mesh_count r) s) (\<lambda>s'.
                           Inr (copied, s')))
                  else if 0 < mesh_count r then Inl NullDeref else Inr ([], s)) (\<lambda>(copied, s').
             Inr (r\<lparr>meshes := Some (CustomMeshes (copied @ replicate (nat (cnt - mesh_count r)) emptyMesh)),
                    mesh_count := cnt, custom_meshes := True\<rparr>, s')))"

section \<open>Model ready and model unloaded\<close>

function syncCustomMeshes :: "'v Env \<Rightarrow> ModelPtr \<Rightarrow> int \<Rightarrow> int \<Rightarrow> Mesh list \<Rightarrow> Scene \<Rightarrow> error + (Mesh list \<times> Scene)" where
  "syncCustomMeshes env m i n ms s =
     (if i < n
      then (case elemAt ms i of
              Inl e \<Rightarrow> Inl e
            | Inr msh \<Rightarrow>
                (let src = getMesh env m i in
                 if material msh = None
                 then (case material src of
                         None \<Rightarrow> Inl NullDeref
                       | Some mat \<Rightarrow>
                           syncCustomMeshes env m (i + 1) n
                             (ms[nat i := src]) (load (MaterialRes mat) s))
                 else syncCustomMeshes env m (i + 1) n
                        (ms[nat i := src\<lparr>material := material msh\<rparr>]) s))
      else Inr (ms, s))"
  by pat_completeness auto
termination
  by (relation "measure (\<lambda>(env, m, i, n, ms, s). nat (n - i))") auto

function loadedLightsLoop :: "'v Env \<Rightarrow> PointLight list \<Rightarrow> Vec3 \<Rightarrow> real \<Rightarrow> ComponentHandle \<Rightarrow> nat
    \<Rightarrow> ComponentHandle list list \<Rightarrow> error + ComponentHandle list list" where
  "loadedLightsLoop env lights t rad component i geom =
     (if i < length lights
      then (let light = lights ! i in
            if squaredLength (vsub t (getPosition env (m_entity light)))
                 < (rad + m_range light) * (rad + m_range light)
            then (if i < length geom
                  then loadedLightsLoop env lights t rad component (i + 1)
                         (geom[i := geom ! i @ [component]])
                  else Inl IndexOutOfRange)
            else loadedLightsLoop env lights t rad component (i + 1) geom)
      else Inr geom)"
  by pat_completeness auto
termination
  by (relation "measure (\<lambda>(env, lights, t, rad, component, i, geom). length lights - i)") auto

text \<open>
  The body of \<^verbatim>\<open>modelLoaded(Model*, ComponentHandle)\<close>; the block that fills the mesh
  list is \<open>loadedMeshes\<close>. The shader define set on the model's materials for a skinned
  model touches no member modelled here.
\<close>

definition loadedMeshes :: "'v Env \<Rightarrow> ModelPtr \<Rightarrow> ModelPtr \<Rightarrow> ModelInstance \<Rightarrow> Scene
    \<Rightarrow> error + (ModelInstance \<times> Scene)" where
  "loadedMeshes env m rm r1 s1 =
     (if meshes r1 \<noteq> None
      then bindE (allocateCustomMeshes env r1 (getMeshCount env m) s1) (\<lambda>(r2, s2).
             (case meshes r2 of
                Some (CustomMeshes ms) \<Rightarrow>
                  bindE (syncCustomMeshes env m 0 (mesh_count r2) ms s2) (\<lambda>(ms', s3).
                    Inr (r2\<lparr>meshes := Some (CustomMeshes ms')\<rparr>, s3))
              | _ \<Rightarrow> Inl NullDeref))
      else Inr (r1\<lparr>meshes := Some (ModelMeshes rm), mesh_count := getMeshCount env rm\<rparr>, s1))"

definition modelLoaded :: "'v Env \<Rightarrow> ModelPtr \<Rightarrow> ComponentHandle \<Rightarrow> Scene \<Rightarrow> error + Scene" where
  "modelLoaded env m component s =
     bindE (elemAt (m_model_instances s) component) (\<lambda>r.
     bindE (deref (material (getMesh env m 0))) (\<lambda>mat0.
     let ty = (if getLayersCount env mat0 > 0 then MULTILAYER
               else if getBoneCount env m > 0 then SKINNED else RIGID) in
     bindE (deref (model r)) (\<lambda>rm.
     let bounding_radius = getBoundingRadius env rm;
         scale = getScale env (entity r);
         sphere = Sphere (getTranslation (matrix r)) (bounding_radius * scale) in
     bindE (getLayerMask env r) (\<lambda>layer_mask.
     bindE (addStatic (m_culling_system s) component sphere layer_mask) (\<lambda>cs.
     bindE (assertE (pose r = None)) (\<lambda>_.
     let p = (if getBoneCount env m > 0 then Some (Pose (getBoneCount env m)) else None);
         r1 = r\<lparr>itype := ty, pose := p, matrix := getMatrix env (entity r)\<rparr>;
         s1 = s\<lparr>m_culling_system := cs\<rparr> in
     bindE (assertE (meshes r1 = None \<or> custom_meshes r1)) (\<lambda>_.
     bindE (loadedMeshes env m rm r1 s1) (\<lambda>(r3, s4).
     bindE (loadedLightsLoop env (m_point_lights s4) (getTranslation (matrix r3))
              (getBoundingRadius env rm) component 0 (m_light_influenced_geometry s4)) (\<lambda>geom.
       Inr (s4\<lparr>m_model_instances := (m_model_instances s4)[nat component := r3],
               m_light_influenced_geometry := geom\<rparr>))))))))))"

function unloadedLightsLoop :: "nat \<Rightarrow> ComponentHandle \<Rightarrow> nat \<Rightarrow> ComponentHandle list list
    \<Rightarrow> error + ComponentHandle list list" where
  "unloadedLightsLoop n component i geom =
     (if i < n
      then (if i < length geom
            then unloadedLightsLoop n component (i + 1) (geom[i := eraseItemFast (geom ! i) component])
            else Inl IndexOutOfRange)
      else Inr geom)"
  by pat_completeness auto
termination
  by (relation "measure (\<lambda>(n, component, i, geom). n - i)") auto

definition modelUnloaded :: "ComponentHandle \<Rightarrow> Scene \<Rightarrow> error + Scene" where
  "modelUnloaded component s =
     bindE (elemAt (m_model_instances s) component) (\<lambda>r.
     let r1 = (if \<not> custom_meshes r then r\<lparr>meshes := None, mesh_count := 0\<rparr> else r);
         r2 = r1\<lparr>pose := None\<rparr> in
     bindE (unloadedLightsLoop (length (m_point_lights s)) component 0
              (m_light_influenced_geometry s)) (\<lambda>geom.
       Inr (s\<lparr>m_model_instances := (m_model_instances s)[nat component := r2],
              m_light_influenced_geometry := geom,
              m_culling_system := removeStatic (m_culling_system s) component\<rparr>)))"

section \<open>Assigning a model\<close>

text \<open>
  \<^verbatim>\<open>getModelLoadedCallback\<close> finds the callback registered for a model or registers one
  with a reference count of zero; \<^verbatim>\<open>setModel\<close> then counts it down or up.
\<close>

definition getModelLoadedCallback :: "(ModelPtr \<times> int) list \<Rightarrow> ModelPtr \<Rightarrow> (ModelPtr \<times> int) list \<times> int" where
  "getModelLoadedCallback cbs m =
     (case map_of cbs m of Some c \<Rightarrow> (cbs, c) | None \<Rightarrow> (cbs @ [(m, 0)], 0))"

definition releaseCallback :: "(ModelPtr \<times> int) list \<Rightarrow> ModelPtr \<Rightarrow> (ModelPtr \<times> int) list" where
  "releaseCallback cbs m =
     (let (cbs1, c) = getModelLoadedCallback cbs m;
          cbs2 = assignKey cbs1 m (c - 1)
      in if c - 1 = 0 then eraseKey cbs2 m else cbs2)"

definition acquireCallback :: "(ModelPtr \<times> int) list \<Rightarrow> ModelPtr \<Rightarrow> (ModelPtr \<times> int) list" where
  "acquireCallback cbs m =
     (let (cbs1, c) = getModelLoadedCallback cbs m in assignKey cbs1 m (c + 1))"

definition setModel :: "'v Env \<Rightarrow> ComponentHandle \<Rightarrow> ModelPtr option \<Rightarrow> Scene \<Rightarrow> error + Scene" where
  "setModel env component new_model s =
     bindE (elemAt (m_model_instances s) component) (\<lambda>model_instance.
     if \<not> isValid (entity model_instance) then Inl AssertFailed
     else
     let old_model = model model_instance;
         no_change = (new_model = old_model \<and> old_model \<noteq> None) in
     if no_change then Inr (unload (ModelRes (the old_model)) s)
     else
     bindE (case old_model of
              None \<Rightarrow> Inr (model_instance, s)
            | Some om \<Rightarrow>
                bindE (freeCustomMeshes env model_instance s) (\<lambda>(r1, s1).
                  let s2 = s1\<lparr>m_model_loaded_callbacks := releaseCallback (m_model_loaded_callbacks s1) om\<rparr>;
                      s3 = (if isReady env om
                            then s2\<lparr>m_culling_system := removeStatic (m_culling_system s2) component\<rparr>
                            else s2)
                  in Inr (r1, unload (ModelRes om) s3))) (\<lambda>(r2, s4).
     let r3 = r2\<lparr>model := new_model, meshes := None, mesh_count := 0, pose := None\<rparr>;
         s5 = s4\<lparr>m_model_instances := (m_model_instances s4)[nat component := r3]\<rparr> in
     case new_model of
       None \<Rightarrow> Inr s5
     | Some m \<Rightarrow>
         let s6 = s5\<lparr>m_model_loaded_callbacks := acquireCallback (m_model_loaded_callbacks s5) m\<rparr>
         in if isReady env m then modelLoaded env m component s6 else Inr s6))"

definition setModelInstancePath :: "'v Env \<Rightarrow> ComponentHandle \<Rightarrow> string \<Rightarrow> Scene \<Rightarrow> error + Scene" where
  "setModelInstancePath env cmp path s =
     bindE (elemAt (m_model_instances s) cmp) (\<lambda>r0.
     bindE (if pathIsValid path
            then (let m = resourceOfPath env path
                  in setModel env cmp (Some m) (load (ModelRes m) s))
            else setModel env cmp None s) (\<lambda>s1.
     bindE (elemAt (m_model_instances s1) cmp) (\<lambda>r.
       Inr (s1\<lparr>m_model_instances :=
                 (m_model_instances s1)[nat cmp := r\<lparr>matrix := getMatrix env (entity r)\<rparr>]\<rparr>))))"

section \<open>Destroying, showing and hiding an instance\<close>

definition destroyModelInstance :: "'v Env \<Rightarrow> ComponentHandle \<Rightarrow> Scene \<Rightarrow> error + Scene" where
  "destroyModelInstance env component s =
     (let s1 = s\<lparr>events := events s @ [ModelInstanceDestroyed component]\<rparr>;
          s2 = s1\<lparr>m_light_influenced_geometry :=
                    map (remove1 component) (m_light_influenced_geometry s1)\<rparr>
      in bindE (setModel env component None s2) (\<lambda>s3.
         bindE (elemAt (m_model_instances s3) component) (\<lambda>model_instance.
           let e = entity model_instance
           in Inr (s3\<lparr>m_model_instances :=
                         (m_model_instances s3)[nat component :=
                            model_instance\<lparr>pose := None, entity := INVALID_ENTITY\<rparr>],
                      events := events s3 @ [DestroyComponent e MODEL_INSTANCE_TYPE component]\<rparr>))))"



section \<open>Point lights and their influence lists\<close>

definition getPointLightFrustum :: "'v Env \<Rightarrow> Scene \<Rightarrow> ComponentHandle \<Rightarrow> error + 'v Frustum" where
  "getPointLightFrustum env s cmp =
     bindE (lookupKey (m_point_lights_map s) cmp) (\<lambda>k.
     bindE (elemAt (m_point_lights s) k) (\<lambda>light.
       Inr (computeOrtho env (getPosition env (m_entity light)) (Vec3 1 0 0) (Vec3 0 1 0)
              (m_range light) (m_range light) (- m_range light) (m_range light))))"

text \<open>
  The literal \<^verbatim>\<open>0xffffFFFF\<close> that \<^verbatim>\<open>detectLightInfluencedGeometry\<close> passes as the
  64-bit query mask.
\<close>

definition ALL_LAYERS_32 :: u64 where
  "ALL_LAYERS_32 = 0xFFFFFFFF"

definition detectLightInfluencedGeometry :: "'v Env \<Rightarrow> ComponentHandle \<Rightarrow> Scene \<Rightarrow> error + Scene" where
  "detectLightInfluencedGeometry env cmp s =
     bindE (getPointLightFrustum env s cmp) (\<lambda>frustum.
     let results = cullToFrustum env (m_culling_system s) frustum ALL_LAYERS_32 in
     bindE (lookupKey (m_point_lights_map s) cmp) (\<lambda>k.
     bindE (elemAt (m_light_influenced_geometry s) k) (\<lambda>influenced_geometry.
       Inr (s\<lparr>m_light_influenced_geometry :=
                (m_light_influenced_geometry s)[nat k := concat results]\<rparr>))))"

definition createPointLight :: "'v Env \<Rightarrow> Entity \<Rightarrow> Scene \<Rightarrow> error + (ComponentHandle \<times> Scene)" where
  "createPointLight env e s =
     (let last_cmp = m_point_light_last_cmp s + 1;
          light = \<lparr>m_diffuse_color = Vec3 1 1 1, m_specular_color = Vec3 1 1 1,
                   m_diffuse_intensity = 1, m_specular_intensity = 1,
                   m_entity = e, m_component = last_cmp,
                   m_fov = degreesToRadians env 360, m_attenuation_param = 2,
                   m_range = 10, m_cast_shadows = False\<rparr>;
          lights = m_point_lights s @ [light];
          s1 = s\<lparr>m_point_lights := lights,
                  m_light_influenced_geometry := m_light_influenced_geometry s @ [[]],
                  m_point_light_last_cmp := last_cmp,
                  m_point_lights_map :=
                    insertKey (m_point_lights_map s) last_cmp (int (length lights) - 1),
                  events := events s @ [AddComponent e POINT_LIGHT_TYPE last_cmp]\<rparr>
      in bindE (detectLightInfluencedGeometry env last_cmp s1) (\<lambda>s2. Inr (last_cmp, s2)))"

definition destroyPointLight :: "ComponentHandle \<Rightarrow> Scene \<Rightarrow> error + Scene" where
  "destroyPointLight component s =
     bindE (lookupKey (m_point_lights_map s) component) (\<lambda>idx.
     bindE (elemAt (m_point_lights s) idx) (\<lambda>light.
     let e = m_entity light;
         lights = eraseFast (m_point_lights s) (nat idx);
         pmap = eraseKey (m_point_lights_map s) component;
         geom = eraseFast (m_light_influenced_geometry s) (nat idx) in
     bindE (if idx < int (length lights)
            then bindE (lookupKey pmap (m_component (lights ! nat idx))) (\<lambda>_.
                   Inr (assignKey pmap (m_component (lights ! nat idx)) idx))
            else Inr pmap) (\<lambda>pmap'.
       Inr (s\<lparr>m_point_lights := lights, m_point_lights_map := pmap',
               m_light_influenced_geometry := geom,
               events := events s @ [DestroyComponent e POINT_LIGHT_TYPE component]\<rparr>))))"

section \<open>Entity moved\<close>

function movedLightsLoop :: "'v Env \<Rightarrow> Scene \<Rightarrow> Entity \<Rightarrow> real \<Rightarrow> ComponentHandle \<Rightarrow> nat \<Rightarrow> nat
    \<Rightarrow> ComponentHandle list list \<Rightarrow> error + ComponentHandle list list" where
  "movedLightsLoop env s r_entity bounding_radius cmp c light_idx geom =
     (if light_idx < c
      then (if light_idx < length geom
            then (let erased = eraseItemFast (geom ! light_idx) cmp;
                      pos = getPosition env r_entity
                  in case getPointLightFrustum env s (int light_idx) of
                       Inl e \<Rightarrow> Inl e
                     | Inr frustum \<Rightarrow>
                         movedLightsLoop env s r_entity bounding_radius cmp c (light_idx + 1)
                           (geom[light_idx :=
                              (if isSphereInside env frustum pos bounding_radius
                               then erased @ [cmp] else erased)]))
            else Inl IndexOutOfRange)
      else Inr geom)"
  by pat_completeness auto
termination
  by (relation "measure (\<lambda>(env, s, r_entity, bounding_radius, cmp, c, light_idx, geom). c - light_idx)") auto

text \<open>
  \<^verbatim>\<open>onEntityMoved\<close>. Its first block, \<open>movedInstance\<close>, refreshes the instance at the
  entity's index and its membership in every light's influence list. Then the first point
  light that sits on the moved entity, if there is one, has its influence list recomputed.
  The scene is modelled without decals and without bone attachments (\<^verbatim>\<open>m_decals\<close> and
  \<^verbatim>\<open>m_bone_attachments\<close> empty), so the decal refresh and the two loops over the bone
  attachments do nothing.
\<close>

definition movedInstance :: "'v Env \<Rightarrow> Entity \<Rightarrow> Scene \<Rightarrow> error + Scene" where
  "movedInstance env e s =
     (let index = e; cmp = index in
      if index < int (length (m_model_instances s))
      then bindE (elemAt (m_model_instances s) index) (\<lambda>r0.
             if isValid (entity r0) \<and> model r0 \<noteq> None \<and> isReady env (the (model r0))
             then
               let r = r0\<lparr>matrix := getMatrix env e\<rparr>;
                   cs = (if model r \<noteq> None \<and> isReady env (the (model r))
                         then (let rad = getScale env e * getBoundingRadius env (the (model r));
                                   pos = getPosition env e
                               in updateBoundingSphere (m_culling_system s) (Sphere pos rad) cmp)
                         else m_culling_system s);
                   bounding_radius = (if model r \<noteq> None
                                      then getBoundingRadius env (the (model r)) else 1)
               in bindE (movedLightsLoop env s (entity r) bounding_radius cmp
                           (length (m_point_lights s)) 0 (m_light_influenced_geometry s)) (\<lambda>geom.
                    Inr (s\<lparr>m_model_instances := (m_model_instances s)[nat index := r],
                           m_culling_system := cs,
                           m_light_influenced_geometry := geom\<rparr>))
             else Inr s)
      else Inr s)"

definition onEntityMoved :: "'v Env \<Rightarrow> Entity \<Rightarrow> Scene \<Rightarrow> error + Scene" where
  "onEntityMoved env e s =
     bindE (movedInstance env e s) (\<lambda>s1.
       case find (\<lambda>light. m_entity light = e) (m_point_lights s1) of
         None \<Rightarrow> Inr s1
       | Some light \<Rightarrow> detectLightInfluencedGeometry env (m_component light) s1)"

section \<open>Draw records\<close>

definition cull :: "'v Env \<Rightarrow> Scene \<Rightarrow> 'v Frustum \<Rightarrow> u64 \<Rightarrow> ComponentHandle list list option" where
  "cull env s frustum layer_mask =
     (if m_model_instances s = [] then None
      else Some (cullToFrustum env (m_culling_system s) frustum layer_mask))"

definition lodMultiplier :: "'v Env \<Rightarrow> Scene \<Rightarrow> 'v Frustum \<Rightarrow> real" where
  "lodMultiplier env s frustum =
     (let lod_multiplier = m_lod_multiplier s in
      if fov frustum > 0
      then (let t = fov frustum / degreesToRadians env 60 in lod_multiplier * (t * t))
      else lod_multiplier)"

definition squaredDistance :: "'v Env \<Rightarrow> Scene \<Rightarrow> 'v Frustum \<Rightarrow> Vec3 \<Rightarrow> ModelInstance \<Rightarrow> real" where
  "squaredDistance env s frustum ref_point inst =
     squaredLength (vsub (getTranslation (matrix inst)) ref_point)
       * lodMultiplier env s frustum"

function lodMeshLoop :: "ComponentHandle \<Rightarrow> ModelInstance \<Rightarrow> int \<Rightarrow> int \<Rightarrow> ModelInstanceMesh list
    \<Rightarrow> ModelInstanceMesh list" where
  "lodMeshLoop h inst j c subinfos =
     (if j \<le> c
      then lodMeshLoop h inst (j + 1) c
             (subinfos @ [\<lparr>model_instance = h, mesh = MeshRef (meshes inst) j\<rparr>])
      else subinfos)"
  by pat_completeness auto
termination
  by (relation "measure (\<lambda>(h, inst, j, c, subinfos). nat (c + 1 - j))") auto

function temporaryInfoJob :: "'v Env \<Rightarrow> Scene \<Rightarrow> 'v Frustum \<Rightarrow> Vec3 \<Rightarrow> ComponentHandle list
    \<Rightarrow> ModelInstanceMesh list \<Rightarrow> error + ModelInstanceMesh list" where
  "temporaryInfoJob env s frustum ref_point bucket subinfos =
     (case bucket of
        [] \<Rightarrow> Inr subinfos
      | h # rest \<Rightarrow>
          (case elemAt (m_model_instances s) h of
             Inl e \<Rightarrow> Inl e
           | Inr inst \<Rightarrow>
               (case model inst of
                  None \<Rightarrow> Inl NullDeref
                | Some m \<Rightarrow>
                    (let squared_distance = squaredDistance env s frustum ref_point inst;
                         lod = getLODMeshIndices env m squared_distance
                     in temporaryInfoJob env s frustum ref_point rest
                          (lodMeshLoop h inst (fst lod) (snd lod) subinfos)))))"
  by pat_completeness auto
termination
  by (relation "measure (\<lambda>(env, s, frustum, ref_point, bucket, subinfos). length bucket)") auto

text \<open>
  \<^verbatim>\<open>fillTemporaryInfos\<close> resizes the output to one list per sub-result, clears each,
  makes one job per non-empty sub-result; \<^verbatim>\<open>runJobs\<close> schedules every job and waits, after
  which each job has filled its own list.
\<close>

function runJobs :: "'v Env \<Rightarrow> Scene \<Rightarrow> 'v Frustum \<Rightarrow> Vec3 \<Rightarrow> ComponentHandle list list \<Rightarrow> nat list
    \<Rightarrow> ModelInstanceMesh list list \<Rightarrow> error + ModelInstanceMesh list list" where
  "runJobs env s frustum ref_point results jobs infos =
     (case jobs of
        [] \<Rightarrow> Inr infos
      | job # rest \<Rightarrow>
          (case temporaryInfoJob env s frustum ref_point (results ! job) [] of
             Inl e \<Rightarrow> Inl e
           | Inr subinfos \<Rightarrow>
               runJobs env s frustum ref_point results rest (infos[job := subinfos])))"
  by pat_completeness auto
termination
  by (relation "measure (\<lambda>(env, s, frustum, ref_point, results, jobs, infos). length jobs)") auto

definition fillTemporaryInfos :: "'v Env \<Rightarrow> ComponentHandle list list \<Rightarrow> 'v Frustum \<Rightarrow> Vec3 \<Rightarrow> Scene
    \<Rightarrow> error + Scene" where
  "fillTemporaryInfos env results frustum lod_ref_point s =
     (let n = length results;
          resized = take n (m_temporary_infos s @ replicate (n - length (m_temporary_infos s)) []);
          cleared = map (\<lambda>_. []) resized;
          jobs = filter (\<lambda>i. results ! i \<noteq> []) [0..<n]
      in bindE (runJobs env s frustum lod_ref_point results jobs cleared) (\<lambda>infos.
           Inr (s\<lparr>m_temporary_infos := infos, m_jobs := jobs,
                  events := events s @ map JobScheduled jobs\<rparr>)))"

definition getModelInstanceInfos :: "'v Env \<Rightarrow> 'v Frustum \<Rightarrow> Vec3 \<Rightarrow> u64 \<Rightarrow> Scene
    \<Rightarrow> error + (ModelInstanceMesh list list \<times> Scene)" where
  "getModelInstanceInfos env frustum lod_ref_point layer_mask s =
     (let s1 = s\<lparr>m_temporary_infos := map (\<lambda>_. []) (m_temporary_infos s)\<rparr> in
      case cull env s1 frustum layer_mask of
        None \<Rightarrow> Inr (m_temporary_infos s1, s1)
      | Some results \<Rightarrow>
          bindE (fillTemporaryInfos env results frustum lod_ref_point s1) (\<lambda>s2.
            Inr (m_temporary_infos s2, s2)))"

section \<open>A concrete scene\<close>

text \<open>
  Modelled from the spec: an instance of the collaborators for evaluating the code. The
  light volume is the sphere the spec describes, \<open>{light_position, light_range}\<close>, and
  the frustum test is sphere intersection; one model needs every mesh at squared distance
  below 100 from mesh 0 and beyond from mesh 1; model pointers from 10 on are not ready.
\<close>

definition emptyInstance :: ModelInstance where
  "emptyInstance = \<lparr>entity = 0, model = None, pose = None, matrix = Matrix [] (Vec3 0 0 0),
                     meshes = None, mesh_count = 0, custom_meshes = False, itype = RIGID\<rparr>"

definition sphereEnv :: "(Entity \<Rightarrow> Vec3) \<Rightarrow> real \<Rightarrow> (Vec3 \<times> real) Env" where
  "sphereEnv pos scale =
     \<lparr>getPosition = pos,
      getScale = (\<lambda>_. scale),
      getMatrix = (\<lambda>e. Matrix [] (pos e)),
      isReady = (\<lambda>m. m < 10),
      getBoundingRadius = (\<lambda>_. 1),
      getMeshCount = (\<lambda>_. 1),
      getMesh = (\<lambda>m i. \<lparr>material = Some m, attribute_array_offset = 0,
                          attribute_array_size = 0, indices_offset = 0, indices_count = 0\<rparr>),
      getBoneCount = (\<lambda>_. 0),
      getLODMeshIndices = (\<lambda>m d. if d < 100 then (0, 0) else (1, 1)),
      getRenderLayerMask = (\<lambda>mat. if mat = 7 then push_bit 32 1 else 1),
      getLayersCount = (\<lambda>_. 0),
      computeOrtho = (\<lambda>p dir up w h n f. \<lparr>fov = 0, volume = (p, w)\<rparr>),
      isSphereInside = (\<lambda>fr c r. squaredLength (vsub c (fst (volume fr)))
                                    \<le> (r + snd (volume fr)) * (r + snd (volume fr))),
      degreesToRadians = (\<lambda>d. d * 3.14159265 / 180),
      subresults = (\<lambda>hs. [hs]),
      resourceOfPath = (\<lambda>p. length p),
      emplaced = emptyInstance\<rparr>"

definition emptyScene :: Scene where
  "emptyScene = \<lparr>m_model_instances = [], m_point_lights = [], m_point_lights_map = [],
                  m_light_influenced_geometry = [], m_point_light_last_cmp = INVALID_COMPONENT,
                  m_culling_system = [], m_model_loaded_callbacks = [], m_temporary_infos = [],
                  m_jobs = [], m_lod_multiplier = 1, ref_count = (\<lambda>_. 0), events = []\<rparr>"

definition atOrigin :: "Entity \<Rightarrow> Vec3" where
  "atOrigin e = Vec3 0 0 0"

definition scenePos :: "Entity \<Rightarrow> Vec3" where
  "scenePos e = (if e = 1 then Vec3 0 0 5 else Vec3 0 0 0)"

definition readyInstance :: ModelInstance where
  "readyInstance = \<lparr>entity = 0, model = Some 1, pose = None, matrix = Matrix [] (Vec3 0 0 0),
                     meshes = Some (ModelMeshes 1), mesh_count = 1, custom_meshes = False,
                     itype = RIGID\<rparr>"

definition overriddenInstance :: ModelInstance where
  "overriddenInstance =
     readyInstance\<lparr>meshes := Some (CustomMeshes [emptyMesh\<lparr>material := Some 3\<rparr>]),
                   custom_meshes := True\<rparr>"

definition defaultLight :: PointLight where
  "defaultLight = \<lparr>m_diffuse_color = Vec3 1 1 1, m_specular_color = Vec3 1 1 1,
                    m_diffuse_intensity = 1, m_specular_intensity = 1,
                    m_entity = 1, m_component = 0, m_fov = 360 * 3.14159265 / 180,
                    m_attenuation_param = 2, m_range = 10, m_cast_shadows = False\<rparr>"

text \<open>
  One live instance (handle 0, entity 0) with ready model 1 at the origin, one point light
  (component 0, entity 1) at \<open>(0, 0, 5)\<close> with range 10, the instance in the index and in
  the light's influence list.
\<close>

definition litScene :: Scene where
  "litScene = \<lparr>m_model_instances = [readyInstance], m_point_lights = [defaultLight],
                m_point_lights_map = [(0, 0)], m_light_influenced_geometry = [[0]],
                m_point_light_last_cmp = 0,
                m_culling_system = [(0, Sphere (Vec3 0 0 0) 1, 1)],
                m_model_loaded_callbacks = [(1, 1)], m_temporary_infos = [], m_jobs = [],
                m_lod_multiplier = 1,
                ref_count = (\<lambda>res. if res = ModelRes 1 then 1 else 0), events = []\<rparr>"

definition viewFrustum :: "(Vec3 \<times> real) Frustum" where
  "viewFrustum = \<lparr>fov = 2 * (60 * 3.14159265 / 180), volume = (Vec3 0 0 0, 100)\<rparr>"

section \<open>Draw records as the specification words them\<close>

text \<open>
  The specification's reading of the job, for comparison with \<^verbatim>\<open>fillTemporaryInfos\<close>:
  every handle of a sub-result yields one record per mesh index of the inclusive range its
  model returns for the squared distance, each pointing into the instance's own mesh array.
  A sub-result is well formed when its handles index the table and have a model.
\<close>

definition specRecords :: "'v Env \<Rightarrow> Scene \<Rightarrow> 'v Frustum \<Rightarrow> Vec3 \<Rightarrow> ComponentHandle list \<Rightarrow> ModelInstanceMesh list" where
  "specRecords env s frustum ref_point bucket =
     concat (map (\<lambda>h.
       let inst = m_model_instances s ! nat h;
           lod = getLODMeshIndices env (the (model inst)) (squaredDistance env s frustum ref_point inst)
       in map (\<lambda>j. \<lparr>model_instance = h, mesh = MeshRef (meshes inst) j\<rparr>) [fst lod..snd lod]) bucket)"

definition validHandles :: "Scene \<Rightarrow> ComponentHandle list \<Rightarrow> bool" where
  "validHandles s bucket =
     list_all (\<lambda>h. 0 \<le> h \<and> h < int (length (m_model_instances s))
                  \<and> model (m_model_instances s ! nat h) \<noteq> None) bucket"

text \<open>The scene \<open>litScene\<close> after its instance has been destroyed.\<close>

definition deadScene :: Scene where
  "deadScene = \<lparr>m_model_instances =
                   [\<lparr>entity = INVALID_ENTITY, model = None, pose = None,
                     matrix = Matrix [] (Vec3 0 0 0), meshes = None, mesh_count = 0,
                     custom_meshes = False, itype = RIGID\<rparr>],
                 m_point_lights = [defaultLight],
                 m_point_lights_map = [(0, 0)], m_light_influenced_geometry = [[]],
                 m_point_light_last_cmp = 0,
                 m_culling_system = [],
                 m_model_loaded_callbacks = [], m_temporary_infos = [], m_jobs = [],
                 m_lod_multiplier = 1,
                 ref_count = (\<lambda>res. 0),
                 events = [ModelInstanceDestroyed 0, DestroyComponent 0 MODEL_INSTANCE_TYPE 0]\<rparr>"

text \<open>
  A transform store in which entity 0 has moved to \<open>(12, 0, 0)\<close>, and a scene whose
  instance waits for model 10, which is still loading.
\<close>

definition movedPos :: "Entity \<Rightarrow> Vec3" where
  "movedPos e = (if e = 1 then Vec3 0 0 5 else Vec3 12 0 0)"




text \<open>
  The scene \<open>litScene\<close> after its instance was given the ready model 2 by path, and a
  scene without lights whose only instance has model 7, rendered on layer 32.
\<close>

definition swappedScene :: Scene where
  "swappedScene = \<lparr>m_model_instances =
                      [readyInstance\<lparr>model := Some 2, meshes := Some (ModelMeshes 2)\<rparr>],
                    m_point_lights = [defaultLight],
                    m_point_lights_map = [(0, 0)], m_light_influenced_geometry = [[0, 0]],
                    m_point_light_last_cmp = 0,
                    m_culling_system = [(0, Sphere (Vec3 0 0 0) 1, 1)],
                    m_model_loaded_callbacks = [(2, 1)], m_temporary_infos = [], m_jobs = [],
                    m_lod_multiplier = 1,
                    ref_count = (\<lambda>res. if res = ModelRes 2 then 1 else 0), events = []\<rparr>"

definition highLayerInstance :: ModelInstance where
  "highLayerInstance = readyInstance\<lparr>model := Some 7, meshes := Some (ModelMeshes 7)\<rparr>"

definition highLayerScene :: Scene where
  "highLayerScene = \<lparr>m_model_instances = [highLayerInstance], m_point_lights = [],
                      m_point_lights_map = [], m_light_influenced_geometry = [],
                      m_point_light_last_cmp = INVALID_COMPONENT,
                      m_culling_system = [(0, Sphere (Vec3 0 0 0) 1, push_bit 32 1)],
                      m_model_loaded_callbacks = [(7, 1)], m_temporary_infos = [], m_jobs = [],
                      m_lod_multiplier = 1,
                      ref_count = (\<lambda>res. if res = ModelRes 7 then 1 else 0), events = []\<rparr>"

text \<open>
  The scene \<open>litScene\<close> after entity 0 has moved to \<open>(12, 0, 0)\<close> with a world scale
  of 5.
\<close>

definition movedScene :: Scene where
  "movedScene = litScene\<lparr>m_model_instances := [readyInstance\<lparr>matrix := Matrix [] (Vec3 12 0 0)\<rparr>],
                          m_culling_system := [(0, Sphere (Vec3 12 0 0) 5, 1)],
                          m_light_influenced_geometry := [[]]\<rparr>"


section \<open>Basic facts\<close>

lemma bindE_Inr [simp]: "bindE (Inr v) f = f v"
  by (simp add: bindE_def)

lemma bindE_Inl [simp]: "bindE (Inl e) f = Inl e"
  by (simp add: bindE_def)

lemma bindE_eq_Inr: "bindE m f = Inr y \<longleftrightarrow> (\<exists>v. m = Inr v \<and> f v = Inr y)"
  by (cases m) simp_all

lemma elemAt_eq_Inr: "elemAt xs i = Inr v \<longleftrightarrow> 0 \<le> i \<and> i < int (length xs) \<and> v = xs ! nat i"
  by (auto simp: elemAt_def)

lemma elemAt_in_range [simp]: "0 \<le> i \<Longrightarrow> i < int (length xs) \<Longrightarrow> elemAt xs i = Inr (xs ! nat i)"
  by (simp add: elemAt_def)

declare grow_instances.simps [simp del]
declare layerMaskLoop.simps [simp del]
declare unloadMeshMaterials.simps [simp del]
declare loadMeshMaterials.simps [simp del]
declare copyMeshes.simps [simp del]
declare syncCustomMeshes.simps [simp del]
declare loadedLightsLoop.simps [simp del]
declare unloadedLightsLoop.simps [simp del]
declare movedLightsLoop.simps [simp del]
declare lodMeshLoop.simps [simp del]
declare temporaryInfoJob.simps [simp del]
declare runJobs.simps [simp del]

lemma grow_instances_eq:
  "grow_instances d e xs = xs @ replicate (nat (e + 1 - int (length xs))) (sentinel d)"
proof (induction d e xs rule: grow_instances.induct)
  case (1 d e xs)
  show ?case
  proof (cases "e \<ge> int (length xs)")
    case True
    then have "nat (e + 1 - int (length xs)) = Suc (nat (e + 1 - int (length (xs @ [sentinel d]))))"
      by simp
    with True 1 show ?thesis
      by (subst grow_instances.simps) (simp add: replicate_app_Cons_same)
  next
    case False
    then show ?thesis by (subst grow_instances.simps) simp
  qed
qed

lemma length_grow_instances:
  "0 \<le> e \<Longrightarrow> length (grow_instances d e xs) = max (length xs) (nat e + 1)"
  by (simp add: grow_instances_eq)

lemma createModelInstance_again:
  assumes "0 \<le> e" "e < int (length (m_model_instances s))"
  shows "\<exists>s''. createModelInstance env e s = Inr (e, s'')
            \<and> length (m_model_instances s'') = length (m_model_instances s)"
proof -
  have "grow_instances (emplaced env) e (m_model_instances s) = m_model_instances s"
    using assms by (subst grow_instances.simps) simp
  then show ?thesis
    using assms by (simp add: createModelInstance_def Let_def)
qed

section \<open>Entity moved: what each part changes\<close>

lemma movedInstance_frame:
  assumes "movedInstance env e t = Inr t'"
  shows "length (m_model_instances t') = length (m_model_instances t)
       \<and> (\<forall>i. i \<noteq> nat e \<longrightarrow> m_model_instances t' ! i = m_model_instances t ! i)
       \<and> m_point_lights t' = m_point_lights t"
  using assms
  by (auto simp: movedInstance_def Let_def bindE_eq_Inr split: if_splits)

lemma movedInstance_live:
  assumes "movedInstance env e s = Inr s'"
    and "elemAt (m_model_instances s) e = Inr r"
    and "isValid (entity r)" and "model r = Some m" and "isReady env m"
  shows "m_model_instances s' = (m_model_instances s)[nat e := r\<lparr>matrix := getMatrix env e\<rparr>]
       \<and> m_culling_system s' =
           updateBoundingSphere (m_culling_system s)
             (Sphere (getPosition env e) (getScale env e * getBoundingRadius env m)) e
       \<and> movedLightsLoop env s (entity r) (getBoundingRadius env m) e
           (length (m_point_lights s)) 0 (m_light_influenced_geometry s)
           = Inr (m_light_influenced_geometry s')"
  using assms by (auto simp: movedInstance_def Let_def bindE_eq_Inr elemAt_eq_Inr split: if_splits)


lemma detectLightInfluencedGeometry_replaces:
  assumes "detectLightInfluencedGeometry env cmp s = Inr s'"
  shows "\<exists>k frustum. lookupKey (m_point_lights_map s) cmp = Inr k
           \<and> getPointLightFrustum env s cmp = Inr frustum
           \<and> 0 \<le> k \<and> k < int (length (m_light_influenced_geometry s))
           \<and> s' = s\<lparr>m_light_influenced_geometry :=
                      (m_light_influenced_geometry s)[nat k :=
                         concat (cullToFrustum env (m_culling_system s) frustum ALL_LAYERS_32)]\<rparr>"
  using assms
  by (auto simp: detectLightInfluencedGeometry_def Let_def bindE_eq_Inr elemAt_eq_Inr)

lemma detectLightInfluencedGeometry_frame:
  assumes "detectLightInfluencedGeometry env cmp s = Inr s'"
  shows "m_model_instances s' = m_model_instances s \<and> m_culling_system s' = m_culling_system s"
  using detectLightInfluencedGeometry_replaces [OF assms] by auto

lemma onEntityMoved_frame:
  assumes "onEntityMoved env e s = Inr s'"
  shows "\<exists>s1. movedInstance env e s = Inr s1
           \<and> m_model_instances s' = m_model_instances s1
           \<and> m_culling_system s' = m_culling_system s1"
proof -
  from assms obtain s1 where s1: "movedInstance env e s = Inr s1"
    and k: "(case find (\<lambda>light. m_entity light = e) (m_point_lights s1) of
               None \<Rightarrow> Inr s1
             | Some light \<Rightarrow> detectLightInfluencedGeometry env (m_component light) s1) = Inr s'"
    by (auto simp: onEntityMoved_def bindE_eq_Inr)
  show ?thesis
  proof (cases "find (\<lambda>light. m_entity light = e) (m_point_lights s1)")
    case None
    with k s1 show ?thesis by simp
  next
    case (Some light)
    with k have "detectLightInfluencedGeometry env (m_component light) s1 = Inr s'" by simp
    from detectLightInfluencedGeometry_frame [OF this] s1 show ?thesis by simp
  qed
qed

lemma onEntityMoved_no_light:
  assumes "find (\<lambda>light. m_entity light = e) (m_point_lights s) = None"
  shows "onEntityMoved env e s = movedInstance env e s"
proof (cases "movedInstance env e s")
  case (Inl err)
  then show ?thesis by (simp add: onEntityMoved_def)
next
  case (Inr s1)
  from movedInstance_frame [OF Inr] have "m_point_lights s1 = m_point_lights s" by simp
  with assms Inr show ?thesis by (simp add: onEntityMoved_def)
qed

section \<open>C10: handles are entity indices\<close>

text \<open>
  C10. Creating a model instance for an entity with a valid index returns the handle whose
  index is the entity's index. The table is first grown up to that index; the slots added
  below it hold the invalid-entity sentinel with no model and no pose, the slots that
  existed are untouched, and the entity's own slot now names the entity. The lookup by
  entity returns the same handle, and creating again for the same entity reuses the slot
  without growing the table (one instance per entity). A movement notification for an
  entity, in any scene, works on the slot at the entity's index: no other slot changes, and
  when that slot holds a live instance with a ready model, its cached matrix becomes the
  entity's matrix and the culling entry of the handle with the entity's index is updated.
\<close>

theorem createModelInstance_handle_is_entity_index:
  assumes "0 \<le> e"
  shows "\<exists>s'. createModelInstance env e s = Inr (e, s')
      \<and> length (m_model_instances s') = max (length (m_model_instances s)) (nat e + 1)
      \<and> (\<forall>i. length (m_model_instances s) \<le> i \<and> i < nat e \<longrightarrow>
              entity (m_model_instances s' ! i) = INVALID_ENTITY
            \<and> model (m_model_instances s' ! i) = None
            \<and> pose (m_model_instances s' ! i) = None)
      \<and> (\<forall>i. i < length (m_model_instances s) \<and> i \<noteq> nat e \<longrightarrow>
              m_model_instances s' ! i = m_model_instances s ! i)
      \<and> entity (m_model_instances s' ! nat e) = e
      \<and> getModelInstanceComponent s' e = Inr e
      \<and> (\<exists>s''. createModelInstance env e s' = Inr (e, s'')
              \<and> length (m_model_instances s'') = length (m_model_instances s'))
      \<and> (onEntityMoved env e t = Inr t' \<longrightarrow>
              length (m_model_instances t') = length (m_model_instances t)
            \<and> (\<forall>i. i \<noteq> nat e \<longrightarrow> m_model_instances t' ! i = m_model_instances t ! i))
      \<and> (onEntityMoved env e t = Inr t' \<and> elemAt (m_model_instances t) e = Inr r
           \<and> isValid (entity r) \<and> model r = Some m \<and> isReady env m \<longrightarrow>
              m_model_instances t' ! nat e = r\<lparr>matrix := getMatrix env e\<rparr>
            \<and> m_culling_system t' =
                 updateBoundingSphere (m_culling_system t)
                   (Sphere (getPosition env e) (getScale env e * getBoundingRadius env m)) e)"
proof -
  let ?tbl = "grow_instances (emplaced env) e (m_model_instances s)"
  let ?r = "(?tbl ! nat e)\<lparr>entity := e, model := None, meshes := None, pose := None,
                    custom_meshes := False, mesh_count := 0, matrix := getMatrix env e\<rparr>"
  let ?s' = "s\<lparr>m_model_instances := ?tbl[nat e := ?r],
                events := events s @ [AddComponent e MODEL_INSTANCE_TYPE e, ModelInstanceCreated e]\<rparr>"
  have len: "length ?tbl = max (length (m_model_instances s)) (nat e + 1)"
    using assms by (rule length_grow_instances)
  then have inr: "e < int (length ?tbl)" by linarith
  have c1: "createModelInstance env e s = Inr (e, ?s')"
    using assms inr by (simp add: createModelInstance_def Let_def)
  have c2: "length (m_model_instances ?s') = max (length (m_model_instances s)) (nat e + 1)"
    using len by simp
  have c3: "\<forall>i. length (m_model_instances s) \<le> i \<and> i < nat e \<longrightarrow>
              entity (m_model_instances ?s' ! i) = INVALID_ENTITY
            \<and> model (m_model_instances ?s' ! i) = None
            \<and> pose (m_model_instances ?s' ! i) = None"
    by (auto simp: grow_instances_eq nth_append sentinel_def)
  have c4: "\<forall>i. i < length (m_model_instances s) \<and> i \<noteq> nat e \<longrightarrow>
              m_model_instances ?s' ! i = m_model_instances s ! i"
    by (auto simp: grow_instances_eq nth_append)
  have c5: "entity (m_model_instances ?s' ! nat e) = e"
    using inr assms by simp
  have c6: "getModelInstanceComponent ?s' e = Inr e"
    using inr assms c5 by (simp add: getModelInstanceComponent_def Let_def isValid_def)
  have inr': "e < int (length (m_model_instances ?s'))"
    using inr by simp
  have c7: "\<exists>s''. createModelInstance env e ?s' = Inr (e, s'')
              \<and> length (m_model_instances s'') = length (m_model_instances ?s')"
    using createModelInstance_again [OF assms inr'] .
  have c8: "onEntityMoved env e t = Inr t' \<longrightarrow>
              length (m_model_instances t') = length (m_model_instances t)
            \<and> (\<forall>i. i \<noteq> nat e \<longrightarrow> m_model_instances t' ! i = m_model_instances t ! i)"
  proof
    assume "onEntityMoved env e t = Inr t'"
    from onEntityMoved_frame [OF this] obtain t1 where
      t1: "movedInstance env e t = Inr t1" "m_model_instances t' = m_model_instances t1"
      by blast
    from movedInstance_frame [OF t1(1)] t1(2)
    show "length (m_model_instances t') = length (m_model_instances t)
            \<and> (\<forall>i. i \<noteq> nat e \<longrightarrow> m_model_instances t' ! i = m_model_instances t ! i)"
      by simp
  qed
  have c9: "onEntityMoved env e t = Inr t' \<and> elemAt (m_model_instances t) e = Inr r
           \<and> isValid (entity r) \<and> model r = Some m \<and> isReady env m \<longrightarrow>
              m_model_instances t' ! nat e = r\<lparr>matrix := getMatrix env e\<rparr>
            \<and> m_culling_system t' =
                 updateBoundingSphere (m_culling_system t)
                   (Sphere (getPosition env e) (getScale env e * getBoundingRadius env m)) e"
  proof
    assume h: "onEntityMoved env e t = Inr t' \<and> elemAt (m_model_instances t) e = Inr r
           \<and> isValid (entity r) \<and> model r = Some m \<and> isReady env m"
    then obtain t1 where
      t1: "movedInstance env e t = Inr t1" "m_model_instances t' = m_model_instances t1"
          "m_culling_system t' = m_culling_system t1"
      using onEntityMoved_frame by blast
    from h have el: "elemAt (m_model_instances t) e = Inr r" and v: "isValid (entity r)"
      and mm: "model r = Some m" and rd: "isReady env m" by simp_all
    from el have rng: "nat e < length (m_model_instances t)" by (auto simp: elemAt_eq_Inr)
    from movedInstance_live [OF t1(1) el v mm rd] t1(2,3) rng
    show "m_model_instances t' ! nat e = r\<lparr>matrix := getMatrix env e\<rparr>
            \<and> m_culling_system t' =
                 updateBoundingSphere (m_culling_system t)
                   (Sphere (getPosition env e) (getScale env e * getBoundingRadius env m)) e"
      by simp
  qed
  show ?thesis
    using c1 c2 c3 c4 c5 c6 c7 c8 c9 by blast
qed

lemma movedInstance_litScene_far:
  "movedInstance (sphereEnv movedPos 5) 0 litScene = Inr movedScene"
  by (simp add: movedInstance_def movedLightsLoop.simps getPointLightFrustum_def lookupKey_def
      eraseItemFast_def eraseFast_def updateBoundingSphere_def isValid_def
      movedScene_def litScene_def readyInstance_def defaultLight_def sphereEnv_def movedPos_def
      squaredLength_def vsub_def Let_def)

lemma no_light_on_entity_0:
  "find (\<lambda>light. m_entity light = 0) (m_point_lights litScene) = None"
  by (simp add: litScene_def defaultLight_def)

lemma onEntityMoved_far:
  "onEntityMoved (sphereEnv movedPos 5) 0 litScene = Inr movedScene"
  using onEntityMoved_no_light [OF no_light_on_entity_0, of "sphereEnv movedPos 5"]
    movedInstance_litScene_far by simp

theorem createModelInstance_handle_is_entity_index_witness:
  "(0::int) \<le> 2
   \<and> (\<exists>s'. createModelInstance (sphereEnv atOrigin 1) 2 emptyScene = Inr (2, s')
      \<and> length (m_model_instances s') = 3
      \<and> entity (m_model_instances s' ! 0) = INVALID_ENTITY
      \<and> entity (m_model_instances s' ! 1) = INVALID_ENTITY
      \<and> entity (m_model_instances s' ! 2) = 2
      \<and> getModelInstanceComponent s' 2 = Inr 2)
   \<and> onEntityMoved (sphereEnv movedPos 5) 0 litScene = Inr movedScene
   \<and> elemAt (m_model_instances litScene) 0 = Inr readyInstance
   \<and> isValid (entity readyInstance) \<and> model readyInstance = Some 1
   \<and> isReady (sphereEnv movedPos 5) 1
   \<and> m_model_instances movedScene ! 0 = readyInstance\<lparr>matrix := Matrix [] (Vec3 12 0 0)\<rparr>
   \<and> m_culling_system movedScene = [(0, Sphere (Vec3 12 0 0) 5, 1)]"
proof -
  have h: "(0::int) \<le> 2" by simp
  from createModelInstance_handle_is_entity_index [OF h, of "sphereEnv atOrigin 1" emptyScene]
  obtain s' where s': "createModelInstance (sphereEnv atOrigin 1) 2 emptyScene = Inr (2, s')"
      "length (m_model_instances s') = max (length (m_model_instances emptyScene)) (nat 2 + 1)"
      "\<forall>i. length (m_model_instances emptyScene) \<le> i \<and> i < nat 2 \<longrightarrow>
              entity (m_model_instances s' ! i) = INVALID_ENTITY
            \<and> model (m_model_instances s' ! i) = None
            \<and> pose (m_model_instances s' ! i) = None"
      "entity (m_model_instances s' ! nat 2) = 2"
      "getModelInstanceComponent s' 2 = Inr 2"
    by blast
  have l: "length (m_model_instances s') = 3"
    using s'(2) by (simp add: emptyScene_def)
  have e0: "entity (m_model_instances s' ! 0) = INVALID_ENTITY"
    using s'(3) by (simp add: emptyScene_def)
  have e1: "entity (m_model_instances s' ! 1) = INVALID_ENTITY"
    using s'(3) by (simp add: emptyScene_def)
  have e2: "entity (m_model_instances s' ! 2) = 2"
    using s'(4) by simp
  have a: "\<exists>s'. createModelInstance (sphereEnv atOrigin 1) 2 emptyScene = Inr (2, s')
      \<and> length (m_model_instances s') = 3
      \<and> entity (m_model_instances s' ! 0) = INVALID_ENTITY
      \<and> entity (m_model_instances s' ! 1) = INVALID_ENTITY
      \<and> entity (m_model_instances s' ! 2) = 2
      \<and> getModelInstanceComponent s' 2 = Inr 2"
    using s'(1) l e0 e1 e2 s'(5) by blast
  let ?E = "sphereEnv movedPos 5"
  have m1: "onEntityMoved ?E 0 litScene = Inr movedScene" by (rule onEntityMoved_far)
  have m2: "elemAt (m_model_instances litScene) 0 = Inr readyInstance"
    by (simp add: litScene_def elemAt_def)
  have m3: "isValid (entity readyInstance)" by (simp add: readyInstance_def isValid_def)
  have m4: "model readyInstance = Some 1" by (simp add: readyInstance_def)
  have m5: "isReady ?E 1" by (simp add: sphereEnv_def)
  have z: "(0::int) \<le> 0" by simp
  from createModelInstance_handle_is_entity_index
         [OF z, of ?E emptyScene litScene movedScene readyInstance 1] m1 m2 m3 m4 m5
  have "m_model_instances movedScene ! nat 0 = readyInstance\<lparr>matrix := getMatrix ?E 0\<rparr>"
    and "m_culling_system movedScene =
           updateBoundingSphere (m_culling_system litScene)
             (Sphere (getPosition ?E 0) (getScale ?E 0 * getBoundingRadius ?E 1)) 0"
    by blast+
  then have b: "m_model_instances movedScene ! 0 = readyInstance\<lparr>matrix := Matrix [] (Vec3 12 0 0)\<rparr>"
    and c: "m_culling_system movedScene = [(0, Sphere (Vec3 12 0 0) 5, 1)]"
    by (simp_all add: sphereEnv_def movedPos_def litScene_def updateBoundingSphere_def)
  show ?thesis using h a m1 m2 m3 m4 m5 b c by blast
qed

section \<open>Draw records: the job computes the specified records\<close>

lemma lodMeshLoop_eq:
  "lodMeshLoop h inst j c subinfos =
     subinfos @ map (\<lambda>k. \<lparr>model_instance = h, mesh = MeshRef (meshes inst) k\<rparr>) [j..c]"
proof (induction h inst j c subinfos rule: lodMeshLoop.induct)
  case (1 h inst j c subinfos)
  show ?case
  proof (cases "j \<le> c")
    case True
    then have "[j..c] = j # [j + 1..c]" by (simp add: upto_rec1)
    with True 1 show ?thesis by (subst lodMeshLoop.simps) simp
  next
    case False
    then show ?thesis by (subst lodMeshLoop.simps) simp
  qed
qed

lemma temporaryInfoJob_step:
  assumes "elemAt (m_model_instances s) h = Inr inst" "model inst = Some m"
  shows "temporaryInfoJob env s frustum ref_point (h # rest) subinfos =
           temporaryInfoJob env s frustum ref_point rest
             (lodMeshLoop h inst
                (fst (getLODMeshIndices env m (squaredDistance env s frustum ref_point inst)))
                (snd (getLODMeshIndices env m (squaredDistance env s frustum ref_point inst)))
                subinfos)"
  using assms by (subst temporaryInfoJob.simps) (simp add: Let_def)

lemma temporaryInfoJob_eq:
  "validHandles s bucket \<Longrightarrow>
   temporaryInfoJob env s frustum ref_point bucket subinfos =
     Inr (subinfos @ specRecords env s frustum ref_point bucket)"
proof (induction bucket arbitrary: subinfos)
  case Nil
  then show ?case by (subst temporaryInfoJob.simps) (simp add: specRecords_def)
next
  case (Cons h rest)
  then have h: "0 \<le> h" "h < int (length (m_model_instances s))"
    and m: "model (m_model_instances s ! nat h) \<noteq> None"
    and rest: "validHandles s rest"
    by (simp_all add: validHandles_def)
  from m obtain mp where mp: "model (m_model_instances s ! nat h) = Some mp" by blast
  have el: "elemAt (m_model_instances s) h = Inr (m_model_instances s ! nat h)"
    using h by simp
  show ?case
    using Cons.IH [OF rest] mp
    by (simp add: temporaryInfoJob_step [OF el mp] lodMeshLoop_eq specRecords_def Let_def)
qed


lemma runJobs_eq:
  assumes "\<forall>j \<in> set jobs. validHandles s (results ! j)"
  shows "runJobs env s frustum ref_point results jobs infos =
           Inr (fold (\<lambda>j acc. acc[j := specRecords env s frustum ref_point (results ! j)]) jobs infos)"
  using assms
proof (induction jobs arbitrary: infos)
  case Nil
  then show ?case by (subst runJobs.simps) simp
next
  case (Cons j rest)
  then show ?case
    by (subst runJobs.simps) (simp add: temporaryInfoJob_eq)
qed

lemma length_fold_update [simp]:
  "length (fold (\<lambda>j acc. acc[j := F j]) js xs) = length xs"
  by (induction js arbitrary: xs) simp_all

lemma nth_fold_update:
  "i < length xs \<Longrightarrow>
   fold (\<lambda>j acc. acc[j := F j]) js xs ! i = (if i \<in> set js then F i else xs ! i)"
proof (induction js arbitrary: xs)
  case Nil
  then show ?case by simp
next
  case (Cons j js)
  then show ?case by (auto simp: nth_list_update)
qed

lemma specRecords_Nil [simp]: "specRecords env s frustum ref_point [] = []"
  by (simp add: specRecords_def)

lemma specRecords_infos [simp]:
  "specRecords env (s\<lparr>m_temporary_infos := x\<rparr>) frustum ref_point bucket
     = specRecords env s frustum ref_point bucket"
  by (simp add: specRecords_def squaredDistance_def lodMultiplier_def)

lemma validHandles_infos [simp]:
  "validHandles (s\<lparr>m_temporary_infos := x\<rparr>) bucket = validHandles s bucket"
  by (simp add: validHandles_def)

lemma fold_jobs_cleared:
  assumes "length cl = length results" "\<forall>i < length cl. cl ! i = []" "F [] = []"
  shows "fold (\<lambda>j acc. acc[j := F (results ! j)])
           (filter (\<lambda>i. results ! i \<noteq> []) [0..<length results]) cl = map F results"
proof (rule nth_equalityI)
  show "length (fold (\<lambda>j acc. acc[j := F (results ! j)])
           (filter (\<lambda>i. results ! i \<noteq> []) [0..<length results]) cl) = length (map F results)"
    using assms(1) by simp
next
  fix i
  assume "i < length (fold (\<lambda>j acc. acc[j := F (results ! j)])
           (filter (\<lambda>i. results ! i \<noteq> []) [0..<length results]) cl)"
  then have i: "i < length cl" by simp
  then have "cl ! i = []" using assms(2) by blast
  with i assms(1,3) show "fold (\<lambda>j acc. acc[j := F (results ! j)])
           (filter (\<lambda>i. results ! i \<noteq> []) [0..<length results]) cl ! i = map F results ! i"
    by (simp add: nth_fold_update [where F = "\<lambda>j. F (results ! j)", OF i])
qed

lemma cleared_nth:
  "i < length (map (\<lambda>_. [] :: 'a list) xs) \<Longrightarrow> map (\<lambda>_. [] :: 'a list) xs ! i = []"
  by simp

lemma fillTemporaryInfos_eq:
  assumes "list_all (validHandles s) results"
  shows "fillTemporaryInfos env results frustum ref_point s =
           Inr (s\<lparr>m_temporary_infos := map (specRecords env s frustum ref_point) results,
                  m_jobs := filter (\<lambda>i. results ! i \<noteq> []) [0..<length results],
                  events := events s @ map JobScheduled
                              (filter (\<lambda>i. results ! i \<noteq> []) [0..<length results])\<rparr>)"
proof -
  let ?n = "length results"
  let ?jobs = "filter (\<lambda>i. results ! i \<noteq> []) [0..<?n]"
  define cleared where "cleared = map (\<lambda>_. [] :: ModelInstanceMesh list)
                    (take ?n (m_temporary_infos s @ replicate (?n - length (m_temporary_infos s)) []))"
  have v: "\<forall>j \<in> set ?jobs. validHandles s (results ! j)"
    using assms by (auto simp: list_all_length)
  have len: "length cleared = ?n" by (simp add: cleared_def)
  have nil: "\<forall>i < length cleared. cleared ! i = []"
    unfolding cleared_def using cleared_nth by blast
  have "fold (\<lambda>j acc. acc[j := specRecords env s frustum ref_point (results ! j)]) ?jobs cleared
          = map (specRecords env s frustum ref_point) results"
    using len nil by (rule fold_jobs_cleared) simp
  then have "runJobs env s frustum ref_point results ?jobs cleared
          = Inr (map (specRecords env s frustum ref_point) results)"
    by (simp add: runJobs_eq [OF v])
  then show ?thesis
    by (simp add: fillTemporaryInfos_def Let_def cleared_def)
qed

lemma getModelInstanceInfos_eq:
  assumes "m_model_instances s \<noteq> []"
    and "list_all (validHandles s) (cullToFrustum env (m_culling_system s) frustum layer_mask)"
  shows "\<exists>s'. getModelInstanceInfos env frustum lod_ref_point layer_mask s =
           Inr (map (specRecords env s frustum lod_ref_point)
                  (cullToFrustum env (m_culling_system s) frustum layer_mask), s')
            \<and> events s' = events s @ map JobScheduled
                 (filter (\<lambda>i. cullToFrustum env (m_culling_system s) frustum layer_mask ! i \<noteq> [])
                    [0..<length (cullToFrustum env (m_culling_system s) frustum layer_mask)])"
proof -
  let ?s1 = "s\<lparr>m_temporary_infos := map (\<lambda>_. []) (m_temporary_infos s)\<rparr>"
  let ?results = "cullToFrustum env (m_culling_system s) frustum layer_mask"
  have v: "list_all (validHandles ?s1) ?results"
    using assms(2) by (simp add: list_all_iff)
  show ?thesis
    using assms(1) fillTemporaryInfos_eq [OF v, of env frustum lod_ref_point]
    by (simp add: getModelInstanceInfos_def cull_def Let_def)
qed

lemma concat_cleared [simp]: "concat (map (\<lambda>_. []) xs) = []"
  by (induction xs) simp_all

lemma getModelInstanceInfos_empty_index:
  assumes "m_culling_system s = []" and "\<forall>b \<in> set (subresults env []). b = []"
  shows "\<exists>infos s'. getModelInstanceInfos env frustum lod_ref_point layer_mask s = Inr (infos, s')
           \<and> concat infos = [] \<and> events s' = events s"
proof (cases "m_model_instances s = []")
  case True
  then show ?thesis
    by (simp add: getModelInstanceInfos_def cull_def Let_def)
next
  case False
  have r: "cullToFrustum env (m_culling_system s) frustum layer_mask = subresults env []"
    using assms(1) by (simp add: cullToFrustum_def matching_def)
  have v: "list_all (validHandles s) (subresults env [])"
    using assms(2) by (auto simp: list_all_iff validHandles_def)
  have nojobs: "filter (\<lambda>i. subresults env [] ! i \<noteq> []) [0..<length (subresults env [])] = []"
    using assms(2) by (auto simp: filter_empty_conv)
  have empty: "concat (map (specRecords env s frustum lod_ref_point) (subresults env [])) = []"
    using assms(2) by (induction "subresults env []") auto
  from getModelInstanceInfos_eq [OF False, of env frustum layer_mask lod_ref_point] v r
  obtain s' where "getModelInstanceInfos env frustum lod_ref_point layer_mask s =
           Inr (map (specRecords env s frustum lod_ref_point) (subresults env []), s')"
      "events s' = events s @ map JobScheduled
                 (filter (\<lambda>i. subresults env [] ! i \<noteq> []) [0..<length (subresults env [])])"
    by auto
  then show ?thesis using empty nojobs by simp
qed

section \<open>C3: the distance used for level-of-detail selection\<close>

lemma squaredDistance_formula:
  "squaredDistance env s frustum ref_point inst =
     squaredLength (vsub (getTranslation (matrix inst)) ref_point)
       * (m_lod_multiplier s
           * (if fov frustum > 0 then (fov frustum / degreesToRadians env 60)\<^sup>2 else 1))"
  by (simp add: squaredDistance_def lodMultiplier_def Let_def power2_eq_square)

text \<open>
  C3. For a non-empty table and a query whose matches index the table and have a model,
  the records \<^verbatim>\<open>getModelInstanceInfos\<close> returns are, for every handle of every
  sub-result, those of the mesh range the handle's model gives at this squared distance:
  the squared length of the translation of the instance's cached world matrix minus the
  reference point, multiplied by a factor, which is the global multiplier, times
  \<open>(fov / degreesToRadians 60)\<^sup>2\<close> exactly when the query frustum's \<open>fov\<close> is positive.
\<close>

theorem lod_selection_distance:
  assumes "m_model_instances s \<noteq> []"
    and "list_all (validHandles s) (cullToFrustum env (m_culling_system s) frustum layer_mask)"
  shows "\<exists>s'. getModelInstanceInfos env frustum lod_ref_point layer_mask s =
           Inr (map (\<lambda>bucket. concat (map (\<lambda>h.
                       map (\<lambda>j. \<lparr>model_instance = h,
                                 mesh = MeshRef (meshes (m_model_instances s ! nat h)) j\<rparr>)
                         [fst (getLODMeshIndices env (the (model (m_model_instances s ! nat h)))
                                 (squaredLength (vsub (getTranslation (matrix (m_model_instances s ! nat h)))
                                                   lod_ref_point)
                                   * (m_lod_multiplier s
                                       * (if fov frustum > 0
                                          then (fov frustum / degreesToRadians env 60)\<^sup>2 else 1))))
                          ..
                          snd (getLODMeshIndices env (the (model (m_model_instances s ! nat h)))
                                 (squaredLength (vsub (getTranslation (matrix (m_model_instances s ! nat h)))
                                                   lod_ref_point)
                                   * (m_lod_multiplier s
                                       * (if fov frustum > 0
                                          then (fov frustum / degreesToRadians env 60)\<^sup>2 else 1))))])
                     bucket))
                  (cullToFrustum env (m_culling_system s) frustum layer_mask), s')"
proof -
  have "specRecords env s frustum lod_ref_point =
          (\<lambda>bucket. concat (map (\<lambda>h.
                       map (\<lambda>j. \<lparr>model_instance = h,
                                 mesh = MeshRef (meshes (m_model_instances s ! nat h)) j\<rparr>)
                         [fst (getLODMeshIndices env (the (model (m_model_instances s ! nat h)))
                                 (squaredLength (vsub (getTranslation (matrix (m_model_instances s ! nat h)))
                                                   lod_ref_point)
                                   * (m_lod_multiplier s
                                       * (if fov frustum > 0
                                          then (fov frustum / degreesToRadians env 60)\<^sup>2 else 1))))
                          ..
                          snd (getLODMeshIndices env (the (model (m_model_instances s ! nat h)))
                                 (squaredLength (vsub (getTranslation (matrix (m_model_instances s ! nat h)))
                                                   lod_ref_point)
                                   * (m_lod_multiplier s
                                       * (if fov frustum > 0
                                          then (fov frustum / degreesToRadians env 60)\<^sup>2 else 1))))])
                     bucket))"
    by (rule ext) (simp only: specRecords_def Let_def squaredDistance_formula)
  then show ?thesis
    using getModelInstanceInfos_eq [OF assms, of lod_ref_point] by auto
qed

theorem lod_selection_distance_witness:
  "m_model_instances litScene \<noteq> []
   \<and> list_all (validHandles litScene)
        (cullToFrustum (sphereEnv scenePos 1) (m_culling_system litScene) viewFrustum 1)
   \<and> list_all (validHandles litScene)
        (cullToFrustum (sphereEnv scenePos 1) (m_culling_system litScene)
           (viewFrustum\<lparr>fov := 0\<rparr>) 1)
   \<and> (\<exists>s'. getModelInstanceInfos (sphereEnv scenePos 1) viewFrustum (Vec3 3 4 0) 1 litScene =
            Inr ([[\<lparr>model_instance = 0, mesh = MeshRef (Some (ModelMeshes 1)) 1\<rparr>]], s'))
   \<and> (\<exists>s'. getModelInstanceInfos (sphereEnv scenePos 1) (viewFrustum\<lparr>fov := 0\<rparr>)
              (Vec3 3 4 0) 1 litScene =
            Inr ([[\<lparr>model_instance = 0, mesh = MeshRef (Some (ModelMeshes 1)) 0\<rparr>]], s'))"
proof -
  let ?env = "sphereEnv scenePos 1"
  let ?flat = "viewFrustum\<lparr>fov := 0\<rparr>"
  have c: "cullToFrustum ?env (m_culling_system litScene) viewFrustum 1 = [[0]]"
    by (simp add: cullToFrustum_def matching_def litScene_def sphereEnv_def viewFrustum_def
        squaredLength_def vsub_def)
  have c0: "cullToFrustum ?env (m_culling_system litScene) ?flat 1 = [[0]]"
    by (simp add: cullToFrustum_def matching_def litScene_def sphereEnv_def viewFrustum_def
        squaredLength_def vsub_def)
  have h1: "m_model_instances litScene \<noteq> []" by (simp add: litScene_def)
  have h2: "list_all (validHandles litScene) (cullToFrustum ?env (m_culling_system litScene) viewFrustum 1)"
    using c by (simp add: validHandles_def litScene_def readyInstance_def)
  have h3: "list_all (validHandles litScene) (cullToFrustum ?env (m_culling_system litScene) ?flat 1)"
    using c0 by (simp add: validHandles_def litScene_def readyInstance_def)
  have a: "\<exists>s'. getModelInstanceInfos ?env viewFrustum (Vec3 3 4 0) 1 litScene =
            Inr ([[\<lparr>model_instance = 0, mesh = MeshRef (Some (ModelMeshes 1)) 1\<rparr>]], s')"
    using lod_selection_distance [OF h1 h2, of "Vec3 3 4 0"]
    by (simp add: cullToFrustum_def matching_def litScene_def readyInstance_def viewFrustum_def
        sphereEnv_def squaredLength_def vsub_def power2_eq_square)
  have b: "\<exists>s'. getModelInstanceInfos ?env ?flat (Vec3 3 4 0) 1 litScene =
            Inr ([[\<lparr>model_instance = 0, mesh = MeshRef (Some (ModelMeshes 1)) 0\<rparr>]], s')"
    using lod_selection_distance [OF h1 h3, of "Vec3 3 4 0"]
    by (simp add: cullToFrustum_def matching_def litScene_def readyInstance_def viewFrustum_def
        sphereEnv_def squaredLength_def vsub_def)
  show ?thesis using h1 h2 h3 a b by blast
qed

section \<open>C4: one record per mesh of the selected range\<close>

text \<open>
  C4. For a non-empty table and a query whose matches index the table and have a model,
  \<^verbatim>\<open>getModelInstanceInfos\<close> returns, sub-result by sub-result and handle by handle, one
  record per mesh index \<open>j\<close> of the inclusive range \<open>[from, to]\<close> the model gives for
  the computed squared distance, and the record's mesh reference is offset \<open>j\<close> into the
  instance's own mesh array (the private copy when the instance has one), not into the
  model's.
\<close>

theorem draw_records_per_lod_mesh:
  assumes "m_model_instances s \<noteq> []"
    and "list_all (validHandles s) (cullToFrustum env (m_culling_system s) frustum layer_mask)"
  shows "\<exists>s'. getModelInstanceInfos env frustum lod_ref_point layer_mask s =
           Inr (map (\<lambda>bucket. concat (map (\<lambda>h.
                       map (\<lambda>j. \<lparr>model_instance = h,
                                 mesh = MeshRef (meshes (m_model_instances s ! nat h)) j\<rparr>)
                         [fst (getLODMeshIndices env (the (model (m_model_instances s ! nat h)))
                                 (squaredDistance env s frustum lod_ref_point (m_model_instances s ! nat h)))
                          ..
                          snd (getLODMeshIndices env (the (model (m_model_instances s ! nat h)))
                                 (squaredDistance env s frustum lod_ref_point (m_model_instances s ! nat h)))])
                     bucket))
                  (cullToFrustum env (m_culling_system s) frustum layer_mask), s')"
proof -
  have "specRecords env s frustum lod_ref_point =
          (\<lambda>bucket. concat (map (\<lambda>h.
                       map (\<lambda>j. \<lparr>model_instance = h,
                                 mesh = MeshRef (meshes (m_model_instances s ! nat h)) j\<rparr>)
                         [fst (getLODMeshIndices env (the (model (m_model_instances s ! nat h)))
                                 (squaredDistance env s frustum lod_ref_point (m_model_instances s ! nat h)))
                          ..
                          snd (getLODMeshIndices env (the (model (m_model_instances s ! nat h)))
                                 (squaredDistance env s frustum lod_ref_point (m_model_instances s ! nat h)))])
                     bucket))"
    by (rule ext) (simp add: specRecords_def Let_def)
  then show ?thesis
    using getModelInstanceInfos_eq [OF assms, of lod_ref_point] by auto
qed

theorem draw_records_per_lod_mesh_witness:
  "m_model_instances (litScene\<lparr>m_model_instances := [overriddenInstance]\<rparr>) \<noteq> []
   \<and> list_all (validHandles (litScene\<lparr>m_model_instances := [overriddenInstance]\<rparr>))
        (cullToFrustum (sphereEnv scenePos 1)
           (m_culling_system (litScene\<lparr>m_model_instances := [overriddenInstance]\<rparr>)) viewFrustum 1)
   \<and> (\<exists>s'. getModelInstanceInfos (sphereEnv scenePos 1) viewFrustum (Vec3 1 0 0) 1
              (litScene\<lparr>m_model_instances := [overriddenInstance]\<rparr>) =
            Inr ([[\<lparr>model_instance = 0,
                     mesh = MeshRef (Some (CustomMeshes [emptyMesh\<lparr>material := Some 3\<rparr>])) 0\<rparr>]], s'))"
proof -
  let ?s = "litScene\<lparr>m_model_instances := [overriddenInstance]\<rparr>"
  let ?env = "sphereEnv scenePos 1"
  have c: "cullToFrustum ?env (m_culling_system ?s) viewFrustum 1 = [[0]]"
    by (simp add: cullToFrustum_def matching_def litScene_def sphereEnv_def viewFrustum_def
        squaredLength_def vsub_def)
  have h1: "m_model_instances ?s \<noteq> []" by simp
  have h2: "list_all (validHandles ?s) (cullToFrustum ?env (m_culling_system ?s) viewFrustum 1)"
    using c by (simp add: validHandles_def overriddenInstance_def readyInstance_def)
  have d: "squaredDistance ?env ?s viewFrustum (Vec3 1 0 0) overriddenInstance = 4"
    by (simp add: squaredDistance_def lodMultiplier_def litScene_def overriddenInstance_def
        readyInstance_def viewFrustum_def sphereEnv_def squaredLength_def vsub_def)
  have "\<exists>s'. getModelInstanceInfos ?env viewFrustum (Vec3 1 0 0) 1 ?s =
            Inr ([[\<lparr>model_instance = 0,
                     mesh = MeshRef (Some (CustomMeshes [emptyMesh\<lparr>material := Some 3\<rparr>])) 0\<rparr>]], s')"
    using draw_records_per_lod_mesh [OF h1 h2, of "Vec3 1 0 0"] c d
    by (simp add: overriddenInstance_def readyInstance_def sphereEnv_def)
  with h1 h2 show ?thesis by blast
qed

section \<open>C8: an empty index yields no record and no job\<close>

text \<open>
  C8. When the culling index holds no object (so that no sub-result of a query holds a
  handle), \<^verbatim>\<open>getModelInstanceInfos\<close> returns only empty lists of records and no
  job is scheduled; with an empty object table the query is not even issued.
\<close>

theorem empty_index_no_records_no_jobs:
  assumes "m_culling_system s = []" and "\<forall>b \<in> set (subresults env []). b = []"
  shows "\<exists>infos s'. getModelInstanceInfos env frustum lod_ref_point layer_mask s = Inr (infos, s')
           \<and> concat infos = [] \<and> events s' = events s
           \<and> (m_model_instances s = [] \<longrightarrow> cull env s frustum layer_mask = None)"
  using getModelInstanceInfos_empty_index [OF assms, of frustum lod_ref_point layer_mask]
  by (auto simp: cull_def)

theorem empty_index_no_records_no_jobs_witness:
  "m_culling_system (litScene\<lparr>m_culling_system := []\<rparr>) = []
   \<and> subresults (sphereEnv scenePos 1) [] = [[]]
   \<and> (\<exists>infos s'. getModelInstanceInfos (sphereEnv scenePos 1) viewFrustum (Vec3 3 4 0) 1
                     (litScene\<lparr>m_culling_system := []\<rparr>) = Inr (infos, s')
           \<and> concat infos = [] \<and> events s' = [])"
proof -
  have h1: "m_culling_system (litScene\<lparr>m_culling_system := []\<rparr>) = []" by simp
  have h2: "\<forall>b \<in> set (subresults (sphereEnv scenePos 1) []). b = []"
    by (simp add: sphereEnv_def)
  have ev: "events (litScene\<lparr>m_culling_system := []\<rparr>) = []" by (simp add: litScene_def)
  have h3: "subresults (sphereEnv scenePos 1) [] = [[]]"
    by (simp add: sphereEnv_def)
  show ?thesis
    using empty_index_no_records_no_jobs [OF h1 h2, of viewFrustum "Vec3 3 4 0" 1] h1 h3 ev
    by auto
qed

section \<open>C2: destroying a dead handle\<close>

lemma setModel_dead:
  assumes "elemAt (m_model_instances s) component = Inr inst" "\<not> isValid (entity inst)"
  shows "setModel env component new_model s = Inl AssertFailed"
  using assms by (simp add: setModel_def)

lemma setModel_live:
  assumes "setModel env component new_model s = Inr s'"
  shows "0 \<le> component \<and> component < int (length (m_model_instances s))
       \<and> isValid (entity (m_model_instances s ! nat component))"
proof -
  from assms obtain inst where inst: "elemAt (m_model_instances s) component = Inr inst"
    by (auto simp: setModel_def bindE_eq_Inr)
  have "isValid (entity inst)"
  proof (rule ccontr)
    assume "\<not> isValid (entity inst)"
    then have "setModel env component new_model s = Inl AssertFailed"
      using inst by (rule setModel_dead [rotated])
    with assms show False by simp
  qed
  with inst show ?thesis by (simp add: elemAt_eq_Inr)
qed

text \<open>
  C2, as amended. Destroying succeeds only on a live handle and leaves the slot dead (entity
  reset to the sentinel, no pose). A second destroy of the same handle is not a silent
  no-op: it fails the assertion \<^verbatim>\<open>ASSERT(isValid(model_instance.entity))\<close> of
  \<^verbatim>\<open>setModel\<close>.
\<close>

theorem destroy_dead_handle_asserts:
  assumes "destroyModelInstance env component s = Inr s'"
  shows "entity (m_model_instances s' ! nat component) = INVALID_ENTITY
       \<and> pose (m_model_instances s' ! nat component) = None
       \<and> isValid (entity (m_model_instances s ! nat component))
       \<and> destroyModelInstance env component s' = Inl AssertFailed"
proof -
  let ?s2 = "s\<lparr>events := events s @ [ModelInstanceDestroyed component],
               m_light_influenced_geometry := map (remove1 component) (m_light_influenced_geometry s)\<rparr>"
  from assms obtain s3 inst where
    s3: "setModel env component None ?s2 = Inr s3"
    and inst: "elemAt (m_model_instances s3) component = Inr inst"
    and s': "s' = s3\<lparr>m_model_instances :=
                         (m_model_instances s3)[nat component := inst\<lparr>pose := None, entity := INVALID_ENTITY\<rparr>],
                      events := events s3 @ [DestroyComponent (entity inst) MODEL_INSTANCE_TYPE component]\<rparr>"
    by (auto simp: destroyModelInstance_def Let_def bindE_eq_Inr)
  from inst have rng: "0 \<le> component" "component < int (length (m_model_instances s3))"
    by (simp_all add: elemAt_eq_Inr)
  have dead: "entity (m_model_instances s' ! nat component) = INVALID_ENTITY"
    and nopose: "pose (m_model_instances s' ! nat component) = None"
    using rng by (simp_all add: s')
  have el: "elemAt (m_model_instances s') component = Inr (m_model_instances s' ! nat component)"
    using rng by (simp add: s')
  let ?t2 = "s'\<lparr>events := events s' @ [ModelInstanceDestroyed component],
               m_light_influenced_geometry := map (remove1 component) (m_light_influenced_geometry s')\<rparr>"
  have "setModel env component None ?t2 = Inl AssertFailed"
    using el dead by (intro setModel_dead [where inst = "m_model_instances s' ! nat component"])
      (simp_all add: isValid_def INVALID_ENTITY_def)
  then have again: "destroyModelInstance env component s' = Inl AssertFailed"
    by (simp add: destroyModelInstance_def Let_def)
  have live: "isValid (entity (m_model_instances s ! nat component))"
    using setModel_live [OF s3] by simp
  show ?thesis using dead nopose live again by simp
qed

theorem destroy_dead_handle_asserts_witness:
  "destroyModelInstance (sphereEnv scenePos 1) 0 litScene = Inr deadScene
   \<and> entity (m_model_instances deadScene ! nat 0) = INVALID_ENTITY
   \<and> isValid (entity (m_model_instances litScene ! nat 0))
   \<and> destroyModelInstance (sphereEnv scenePos 1) 0 deadScene = Inl AssertFailed"
proof -
  have h: "destroyModelInstance (sphereEnv scenePos 1) 0 litScene = Inr deadScene"
    by (simp add: destroyModelInstance_def setModel_def litScene_def deadScene_def readyInstance_def
        sphereEnv_def freeCustomMeshes_def releaseCallback_def getModelLoadedCallback_def
        assignKey_def eraseKey_def removeStatic_def unload_def isValid_def Let_def fun_eq_iff)
  show ?thesis
    using destroy_dead_handle_asserts [OF h] h by simp
qed

text \<open>
  C2 as stated fails: in the scene \<open>litScene\<close> the first destroy of handle 0 succeeds and
  the second one stops at the failed assertion.
\<close>

theorem destroy_twice_counterexample:
  "destroyModelInstance (sphereEnv scenePos 1) 0 litScene = Inr deadScene
   \<and> destroyModelInstance (sphereEnv scenePos 1) 0 deadScene = Inl AssertFailed"
proof -
  have a: "destroyModelInstance (sphereEnv scenePos 1) 0 litScene = Inr deadScene"
    by (simp add: destroyModelInstance_def setModel_def litScene_def deadScene_def readyInstance_def
        sphereEnv_def freeCustomMeshes_def releaseCallback_def getModelLoadedCallback_def
        assignKey_def eraseKey_def removeStatic_def unload_def isValid_def Let_def fun_eq_iff)
  have b: "destroyModelInstance (sphereEnv scenePos 1) 0 deadScene = Inl AssertFailed"
    by (simp add: destroyModelInstance_def setModel_def deadScene_def isValid_def
        INVALID_ENTITY_def Let_def)
  show ?thesis using a b by simp
qed

section \<open>C5: assigning the model already assigned\<close>

lemma setModel_no_change:
  assumes "elemAt (m_model_instances s) component = Inr inst"
    and "isValid (entity inst)" and "model inst = Some m"
  shows "setModel env component (Some m) s = Inr (unload (ModelRes m) s)"
  using assms by (simp add: setModel_def Let_def)

lemma unload_load [simp]: "unload res (load res s) = s"
  by (simp add: unload_def load_def)

text \<open>
  C5. Assigning to a live instance the model it already has, by the path of that model,
  changes none of: culling-index entry, mesh list, pose, callback registrations, resource
  reference counts (the reference taken by loading the path is given back); the scene
  afterwards is the scene before with the instance's cached world matrix refreshed from the
  transform store. \<^verbatim>\<open>setModel\<close> compares the pointers first: called with the assigned
  model after the caller's load, it only gives that reference back and returns the scene
  as it was before the load, with no teardown and no load callback.
\<close>

theorem assign_same_model_is_noop:
  assumes "elemAt (m_model_instances s) component = Inr inst"
    and "isValid (entity inst)" and "model inst = Some m"
    and "pathIsValid path" and "resourceOfPath env path = m"
  shows "setModel env component (Some m) (load (ModelRes m) s) = Inr s
       \<and> setModelInstancePath env component path s =
           Inr (s\<lparr>m_model_instances :=
                    (m_model_instances s)[nat component := inst\<lparr>matrix := getMatrix env (entity inst)\<rparr>]\<rparr>)"
proof -
  have el: "elemAt (m_model_instances (load (ModelRes m) s)) component = Inr inst"
    using assms(1) by (simp add: load_def)
  have a: "setModel env component (Some m) (load (ModelRes m) s) = Inr s"
    using setModel_no_change [OF el assms(2,3)] by simp
  then have b: "setModelInstancePath env component path s =
           Inr (s\<lparr>m_model_instances :=
                    (m_model_instances s)[nat component := inst\<lparr>matrix := getMatrix env (entity inst)\<rparr>]\<rparr>)"
    using assms(1,4,5) by (simp add: setModelInstancePath_def Let_def)
  show ?thesis using a b by simp
qed

theorem assign_same_model_is_noop_witness:
  "elemAt (m_model_instances litScene) 0 = Inr readyInstance
   \<and> isValid (entity readyInstance) \<and> model readyInstance = Some 1
   \<and> pathIsValid ''m'' \<and> resourceOfPath (sphereEnv scenePos 1) ''m'' = 1
   \<and> setModel (sphereEnv scenePos 1) 0 (Some 1) (load (ModelRes 1) litScene) = Inr litScene
   \<and> setModelInstancePath (sphereEnv scenePos 1) 0 ''m'' litScene = Inr litScene"
proof -
  have h1: "elemAt (m_model_instances litScene) 0 = Inr readyInstance"
    by (simp add: litScene_def elemAt_def)
  have h2: "isValid (entity readyInstance)" by (simp add: readyInstance_def isValid_def)
  have h3: "model readyInstance = Some 1" by (simp add: readyInstance_def)
  have h4: "pathIsValid ''m''" by (simp add: pathIsValid_def)
  have h5: "resourceOfPath (sphereEnv scenePos 1) ''m'' = 1" by (simp add: sphereEnv_def)
  have same: "litScene\<lparr>m_model_instances :=
                 (m_model_instances litScene)[nat 0 :=
                    readyInstance\<lparr>matrix := getMatrix (sphereEnv scenePos 1) (entity readyInstance)\<rparr>]\<rparr>
              = litScene"
    by (simp add: litScene_def readyInstance_def sphereEnv_def scenePos_def)
  show ?thesis
    using assign_same_model_is_noop [OF h1 h2 h3 h4 h5] h1 h2 h3 h4 h5 same
    by simp
qed

section \<open>Frame lemmas: what the mesh loops change\<close>

lemma unloadMeshMaterials_only_refs:
  "unloadMeshMaterials env r i n s = Inr s' \<Longrightarrow> \<exists>rc. s' = s\<lparr>ref_count := rc\<rparr>"
proof (induction env r i n s rule: unloadMeshMaterials.induct)
  case (1 env r i n s)
  show ?case
  proof (cases "i < n")
    case True
    with "1.prems" obtain msh mat where
      m: "meshAt env r i = Inr msh" "material msh = Some mat"
      and rec: "unloadMeshMaterials env r (i + 1) n (unload (MaterialRes mat) s) = Inr s'"
      by (subst (asm) unloadMeshMaterials.simps) (auto split: sum.splits option.splits)
    from "1.IH" [OF True m rec] obtain rc where "s' = (unload (MaterialRes mat) s)\<lparr>ref_count := rc\<rparr>"
      by blast
    then have "s' = s\<lparr>ref_count := rc\<rparr>" by (simp add: unload_def)
    then show ?thesis by blast
  next
    case False
    with "1.prems" have "s' = s" by (subst (asm) unloadMeshMaterials.simps) simp
    then have "s' = s\<lparr>ref_count := ref_count s\<rparr>" by simp
    then show ?thesis by blast
  qed
qed



lemma only_refs_refl: "\<exists>rc. t = t\<lparr>ref_count := rc\<rparr>"
  by (rule exI [of _ "ref_count t"]) simp








section \<open>C6: the radius of culling entries\<close>











section \<open>C9: duplicates and dead handles in influence lists\<close>

text \<open>
  C9 fails on the code. The instance of \<open>litScene\<close> is in the light's influence list
  once. Assigning it another ready model by path leaves the list entry in place
  (\<^verbatim>\<open>setModel\<close> removes the instance from the culling index only) and
  \<^verbatim>\<open>modelLoaded\<close> pushes the handle again: the list holds it twice. Destroying the
  instance then erases one occurrence, and the list keeps the handle of a dead object.
\<close>

theorem influence_list_duplicate_after_model_swap:
  "m_light_influenced_geometry litScene = [[0]]
   \<and> setModelInstancePath (sphereEnv scenePos 1) 0 ''m2'' litScene = Inr swappedScene
   \<and> m_light_influenced_geometry swappedScene = [[0, 0]]
   \<and> destroyModelInstance (sphereEnv scenePos 1) 0 swappedScene =
        Inr (deadScene\<lparr>m_light_influenced_geometry := [[0]]\<rparr>)
   \<and> entity (m_model_instances deadScene ! 0) = INVALID_ENTITY"
proof -
  have a: "setModelInstancePath (sphereEnv scenePos 1) 0 ''m2'' litScene = Inr swappedScene"
    by (simp add: setModelInstancePath_def pathIsValid_def setModel_def freeCustomMeshes_def
        releaseCallback_def acquireCallback_def getModelLoadedCallback_def assignKey_def eraseKey_def
        removeStatic_def load_def unload_def isValid_def
        modelLoaded_def loadedMeshes_def getLayerMask_def layerMaskLoop.simps
        addStatic_def isAdded_def assertE_def deref_def loadedLightsLoop.simps
        swappedScene_def litScene_def readyInstance_def defaultLight_def sphereEnv_def scenePos_def
        squaredLength_def vsub_def Let_def fun_eq_iff)
  have b: "destroyModelInstance (sphereEnv scenePos 1) 0 swappedScene =
        Inr (deadScene\<lparr>m_light_influenced_geometry := [[0]]\<rparr>)"
    by (simp add: destroyModelInstance_def setModel_def freeCustomMeshes_def
        releaseCallback_def getModelLoadedCallback_def assignKey_def eraseKey_def
        removeStatic_def unload_def isValid_def
        swappedScene_def deadScene_def readyInstance_def sphereEnv_def Let_def fun_eq_iff)
  show ?thesis
    using a b by (simp add: litScene_def swappedScene_def deadScene_def)
qed

section \<open>C7: recomputing a light's influence list\<close>

text \<open>
  C7 fails on the code. The query mask of \<^verbatim>\<open>detectLightInfluencedGeometry\<close> is
  \<^verbatim>\<open>0xffffFFFF\<close>, the low 32 bits of the 64-bit layer mask. An instance whose
  material renders on layer 32 has the layer mask \<open>2^32\<close>; a light created next to it
  gets an empty influence list, although the same query with all 64 bits set returns the
  instance.
\<close>

theorem recompute_misses_high_layers:
  "getLayerMask (sphereEnv scenePos 1) highLayerInstance = Inr (push_bit 32 1)
   \<and> createPointLight (sphereEnv scenePos 1) 1 highLayerScene =
        Inr (0, highLayerScene\<lparr>m_point_lights := [defaultLight], m_point_lights_map := [(0, 0)],
                               m_light_influenced_geometry := [[]], m_point_light_last_cmp := 0,
                               events := [AddComponent 1 POINT_LIGHT_TYPE 0]\<rparr>)
   \<and> cullToFrustum (sphereEnv scenePos 1) (m_culling_system highLayerScene)
        \<lparr>fov = 0, volume = (Vec3 0 0 5, 10)\<rparr> ALL_LAYERS_32 = [[]]
   \<and> cullToFrustum (sphereEnv scenePos 1) (m_culling_system highLayerScene)
        \<lparr>fov = 0, volume = (Vec3 0 0 5, 10)\<rparr> (- 1) = [[0]]"
proof -
  have m: "(push_bit 32 1 :: u64) AND 0xFFFFFFFF = 0" by simp
  have a: "getLayerMask (sphereEnv scenePos 1) highLayerInstance = Inr (push_bit 32 1)"
    by (simp add: getLayerMask_def layerMaskLoop.simps highLayerInstance_def readyInstance_def
        sphereEnv_def)
  have c: "cullToFrustum (sphereEnv scenePos 1) (m_culling_system highLayerScene)
        \<lparr>fov = 0, volume = (Vec3 0 0 5, 10)\<rparr> ALL_LAYERS_32 = [[]]"
    using m by (simp add: cullToFrustum_def matching_def ALL_LAYERS_32_def highLayerScene_def
        sphereEnv_def squaredLength_def vsub_def)
  have d: "cullToFrustum (sphereEnv scenePos 1) (m_culling_system highLayerScene)
        \<lparr>fov = 0, volume = (Vec3 0 0 5, 10)\<rparr> (- 1) = [[0]]"
    by (simp add: cullToFrustum_def matching_def highLayerScene_def
        sphereEnv_def squaredLength_def vsub_def)
  have b: "createPointLight (sphereEnv scenePos 1) 1 highLayerScene =
        Inr (0, highLayerScene\<lparr>m_point_lights := [defaultLight], m_point_lights_map := [(0, 0)],
                               m_light_influenced_geometry := [[]], m_point_light_last_cmp := 0,
                               events := [AddComponent 1 POINT_LIGHT_TYPE 0]\<rparr>)"
    using m by (simp add: createPointLight_def detectLightInfluencedGeometry_def getPointLightFrustum_def
        lookupKey_def insertKey_def cullToFrustum_def matching_def ALL_LAYERS_32_def
        highLayerScene_def defaultLight_def INVALID_COMPONENT_def
        sphereEnv_def scenePos_def squaredLength_def vsub_def Let_def)
  show ?thesis using a b c d by simp
qed

section \<open>Removing an item from an influence list\<close>

lemma indexOf_Some: "indexOf xs c = Some j \<Longrightarrow> j < length xs \<and> xs ! j = c"
proof (induction xs arbitrary: j)
  case Nil
  then show ?case by simp
next
  case (Cons x xs)
  then show ?case by (cases "x = c") auto
qed

lemma indexOf_None: "indexOf xs c = None \<Longrightarrow> c \<notin> set xs"
  by (induction xs) (auto split: if_splits)

lemma mset_butlast: "xs \<noteq> [] \<Longrightarrow> mset (butlast xs) = mset xs - {#last xs#}"
proof -
  assume "xs \<noteq> []"
  then have "xs = butlast xs @ [last xs]" by simp
  then have "mset xs = mset (butlast xs) + {#last xs#}"
    by (metis mset_append mset_single_iff_right mset.simps(2) mset_zero_iff_right add.right_neutral)
  then show ?thesis by simp
qed

lemma mset_eraseFast:
  assumes "j < length xs"
  shows "mset (eraseFast xs j) = mset xs - {#xs ! j#}"
proof (cases "j = length xs - 1")
  case True
  from assms have ne: "xs \<noteq> []" by auto
  with True have "xs ! j = last xs" by (simp add: last_conv_nth)
  with assms True mset_butlast [OF ne] show ?thesis by (simp add: eraseFast_def)
next
  case False
  with assms have ne: "xs \<noteq> []" and jl: "j < length xs - 1" by auto
  let ?ys = "xs[j := last xs]"
  have l: "last ?ys = last xs"
    using jl ne by (simp add: last_conv_nth)
  have "mset ?ys = add_mset (last xs) (mset xs - {#xs ! j#})"
    using assms by (simp add: mset_update)
  moreover have "mset (butlast ?ys) = mset ?ys - {#last ?ys#}"
    using ne by (simp add: mset_butlast)
  ultimately have "mset (butlast ?ys) = mset xs - {#xs ! j#}"
    using l by simp
  with assms False show ?thesis by (simp add: eraseFast_def)
qed

lemma mset_eraseItemFast: "mset (eraseItemFast xs c) = mset xs - {#c#}"
proof (cases "indexOf xs c")
  case None
  then have "c \<notin> set xs" by (rule indexOf_None)
  with None show ?thesis by (simp add: eraseItemFast_def)
next
  case (Some j)
  from indexOf_Some [OF Some] mset_eraseFast [of j xs] Some
  show ?thesis by (simp add: eraseItemFast_def)
qed

lemma set_eraseItemFast: "set (eraseItemFast xs c) = set (remove1 c xs)"
  by (rule mset_eq_setD) (simp add: mset_eraseItemFast)

lemma eraseItemFast_other:
  "h \<noteq> c \<Longrightarrow> h \<in> set (eraseItemFast xs c) \<longleftrightarrow> h \<in> set xs"
  by (simp add: set_eraseItemFast in_set_remove1)

lemma eraseItemFast_distinct_removed:
  "distinct xs \<Longrightarrow> c \<notin> set (eraseItemFast xs c)"
  by (simp add: set_eraseItemFast)

lemma eraseItemFast_distinct: "distinct xs \<Longrightarrow> distinct (eraseItemFast xs c)"
proof -
  assume d: "distinct xs"
  have "mset (eraseItemFast xs c) = mset (remove1 c xs)"
    by (simp add: mset_eraseItemFast)
  then have "distinct (eraseItemFast xs c) = distinct (remove1 c xs)"
    by (rule mset_eq_imp_distinct_iff)
  with d show ?thesis by simp
qed

lemma getPointLightFrustum_at_index:
  assumes "i < length (m_point_lights s)"
    and "map_of (m_point_lights_map s) (int i) = Some (int i)"
  shows "getPointLightFrustum env s (int i) =
           Inr (computeOrtho env (getPosition env (m_entity (m_point_lights s ! i)))
                  (Vec3 1 0 0) (Vec3 0 1 0)
                  (m_range (m_point_lights s ! i)) (m_range (m_point_lights s ! i))
                  (- m_range (m_point_lights s ! i)) (m_range (m_point_lights s ! i)))"
  using assms by (simp add: getPointLightFrustum_def lookupKey_def)

lemma movedLightsLoop_result:
  "movedLightsLoop env s re br cmp c k geom = Inr geom' \<Longrightarrow>
     length geom' = length geom
   \<and> (\<forall>j. j < k \<or> c \<le> j \<longrightarrow> geom' ! j = geom ! j)
   \<and> (\<forall>j. k \<le> j \<and> j < c \<longrightarrow> j < length geom \<and>
          (\<exists>fr. getPointLightFrustum env s (int j) = Inr fr
              \<and> geom' ! j = (if isSphereInside env fr (getPosition env re) br
                             then eraseItemFast (geom ! j) cmp @ [cmp]
                             else eraseItemFast (geom ! j) cmp)))"
proof (induction env s re br cmp c k geom rule: movedLightsLoop.induct)
  case (1 env s re br cmp c k geom)
  show ?case
  proof (cases "k < c")
    case False
    with "1.prems" have "geom' = geom" by (subst (asm) movedLightsLoop.simps) simp
    with False show ?thesis by auto
  next
    case True
    with "1.prems" have kl: "k < length geom"
      by (subst (asm) movedLightsLoop.simps) (auto split: if_splits)
    with True "1.prems" obtain fr where
      fr: "getPointLightFrustum env s (int k) = Inr fr"
      and rec: "movedLightsLoop env s re br cmp c (k + 1)
                  (geom[k := (if isSphereInside env fr (getPosition env re) br
                              then eraseItemFast (geom ! k) cmp @ [cmp]
                              else eraseItemFast (geom ! k) cmp)]) = Inr geom'"
      by (subst (asm) movedLightsLoop.simps) (auto simp: Let_def split: sum.splits)
    let ?X = "(if isSphereInside env fr (getPosition env re) br
               then eraseItemFast (geom ! k) cmp @ [cmp]
               else eraseItemFast (geom ! k) cmp)"
    from "1.IH" [OF True kl refl refl fr rec]
    have len: "length geom' = length (geom[k := ?X])"
      and out: "\<forall>j. j < k + 1 \<or> c \<le> j \<longrightarrow> geom' ! j = geom[k := ?X] ! j"
      and inn: "\<forall>j. k + 1 \<le> j \<and> j < c \<longrightarrow> j < length (geom[k := ?X]) \<and>
          (\<exists>fr. getPointLightFrustum env s (int j) = Inr fr
              \<and> geom' ! j = (if isSphereInside env fr (getPosition env re) br
                             then eraseItemFast (geom[k := ?X] ! j) cmp @ [cmp]
                             else eraseItemFast (geom[k := ?X] ! j) cmp))"
      by blast+
    have a: "length geom' = length geom" using len by simp
    have b: "\<forall>j. j < k \<or> c \<le> j \<longrightarrow> geom' ! j = geom ! j"
      using out True by auto
    have c: "\<forall>j. k \<le> j \<and> j < c \<longrightarrow> j < length geom \<and>
          (\<exists>fr. getPointLightFrustum env s (int j) = Inr fr
              \<and> geom' ! j = (if isSphereInside env fr (getPosition env re) br
                             then eraseItemFast (geom ! j) cmp @ [cmp]
                             else eraseItemFast (geom ! j) cmp))"
    proof (intro allI impI)
      fix j assume j: "k \<le> j \<and> j < c"
      show "j < length geom \<and>
          (\<exists>fr. getPointLightFrustum env s (int j) = Inr fr
              \<and> geom' ! j = (if isSphereInside env fr (getPosition env re) br
                             then eraseItemFast (geom ! j) cmp @ [cmp]
                             else eraseItemFast (geom ! j) cmp))"
      proof (cases "j = k")
        case True
        then have "geom' ! j = ?X" using out kl by simp
        with True kl fr show ?thesis by blast
      next
        case False
        with j have j1: "k + 1 \<le> j \<and> j < c" by simp
        have same: "geom[k := ?X] ! j = geom ! j"
          using False by simp
        from inn j1 obtain fr' where
          "j < length (geom[k := ?X])"
          "getPointLightFrustum env s (int j) = Inr fr'"
          "geom' ! j = (if isSphereInside env fr' (getPosition env re) br
                             then eraseItemFast (geom[k := ?X] ! j) cmp @ [cmp]
                             else eraseItemFast (geom[k := ?X] ! j) cmp)"
          by blast
        then have "j < length geom"
          and "getPointLightFrustum env s (int j) = Inr fr'"
          and "geom' ! j = (if isSphereInside env fr' (getPosition env re) br
                             then eraseItemFast (geom ! j) cmp @ [cmp]
                             else eraseItemFast (geom ! j) cmp)"
          by (simp_all only: same length_list_update)
        then show ?thesis by blast
      qed
    qed
    show ?thesis using a b c by blast
  qed
qed



section \<open>C1: light membership after a move\<close>

text \<open>
  What the first block of the notification does for a light whose component id equals its
  index in the light array and whose list held no duplicate: the handle is in the list
  afterwards exactly if the light's volume accepts the sphere around the entity's position
  with the model's object-space bounding radius; other handles keep their membership.
\<close>

lemma movedInstance_light_membership:
  assumes "movedInstance env e s = Inr s'"
    and "elemAt (m_model_instances s) e = Inr r"
    and "isValid (entity r)" and "model r = Some m" and "isReady env m"
    and "i < length (m_point_lights s)"
    and "map_of (m_point_lights_map s) (int i) = Some (int i)"
    and "distinct (m_light_influenced_geometry s ! i)"
  shows "(e \<in> set (m_light_influenced_geometry s' ! i) \<longleftrightarrow>
            isSphereInside env
              (computeOrtho env (getPosition env (m_entity (m_point_lights s ! i)))
                 (Vec3 1 0 0) (Vec3 0 1 0)
                 (m_range (m_point_lights s ! i)) (m_range (m_point_lights s ! i))
                 (- m_range (m_point_lights s ! i)) (m_range (m_point_lights s ! i)))
              (getPosition env (entity r)) (getBoundingRadius env m))
       \<and> (\<forall>h. h \<noteq> e \<longrightarrow>
             (h \<in> set (m_light_influenced_geometry s' ! i)
                \<longleftrightarrow> h \<in> set (m_light_influenced_geometry s ! i)))
       \<and> distinct (m_light_influenced_geometry s' ! i)"
proof -
  let ?fr = "computeOrtho env (getPosition env (m_entity (m_point_lights s ! i)))
                 (Vec3 1 0 0) (Vec3 0 1 0)
                 (m_range (m_point_lights s ! i)) (m_range (m_point_lights s ! i))
                 (- m_range (m_point_lights s ! i)) (m_range (m_point_lights s ! i))"
  let ?old = "m_light_influenced_geometry s ! i"
  let ?new = "m_light_influenced_geometry s' ! i"
  let ?erased = "eraseItemFast ?old e"
  let ?inside = "isSphereInside env ?fr (getPosition env (entity r)) (getBoundingRadius env m)"
  from movedInstance_live [OF assms(1-5)]
  have loop: "movedLightsLoop env s (entity r) (getBoundingRadius env m) e
           (length (m_point_lights s)) 0 (m_light_influenced_geometry s)
           = Inr (m_light_influenced_geometry s')"
    by simp
  from movedLightsLoop_result [OF loop] assms(6)
  obtain fr where fr: "getPointLightFrustum env s (int i) = Inr fr"
    and new: "?new = (if isSphereInside env fr (getPosition env (entity r)) (getBoundingRadius env m)
                      then ?erased @ [e] else ?erased)"
    by auto
  from fr getPointLightFrustum_at_index [OF assms(6,7), of env] have "fr = ?fr" by simp
  with new have new': "?new = (if ?inside then ?erased @ [e] else ?erased)" by simp
  have gone: "e \<notin> set ?erased" using assms(8) by (rule eraseItemFast_distinct_removed)
  have dist: "distinct ?erased" using assms(8) by (rule eraseItemFast_distinct)
  have a: "e \<in> set ?new \<longleftrightarrow> ?inside" using new' gone by simp
  have b: "\<forall>h. h \<noteq> e \<longrightarrow> (h \<in> set ?new \<longleftrightarrow> h \<in> set ?old)"
    using new' by (simp add: eraseItemFast_other)
  have c: "distinct ?new" using new' gone dist by simp
  show ?thesis using a b c by blast
qed

text \<open>
  C1 fails on the code. Entity 0 of \<open>litScene\<close> moves to \<open>(12, 0, 0)\<close> with world scale
  5; the light is at \<open>(0, 0, 5)\<close> with range 10 and its volume is read as the sphere
  \<open>{position, range}\<close> the specification names. The notification writes the new bounding
  sphere, of radius \<open>5 = 5 * 1\<close>, into the culling index; that sphere intersects the
  light's sphere (squared distance 169, at most \<open>15\<^sup>2\<close>). But the membership test of the
  same notification uses the unscaled radius 1, and the handle is not in the light's list
  afterwards. Recomputing the light's list from the culling index, the sibling path, puts
  the handle in.
\<close>

theorem moved_object_unscaled_radius:
  "onEntityMoved (sphereEnv movedPos 5) 0 litScene = Inr movedScene
   \<and> m_light_influenced_geometry movedScene = [[]]
   \<and> getSphere (m_culling_system movedScene) 0 = Inr (Sphere (Vec3 12 0 0) 5)
   \<and> getPosition (sphereEnv movedPos 5) (m_entity defaultLight) = Vec3 0 0 5
   \<and> m_range defaultLight = 10
   \<and> squaredLength (vsub (Vec3 12 0 0) (Vec3 0 0 5)) \<le> (5 + 10) * (5 + 10)
   \<and> detectLightInfluencedGeometry (sphereEnv movedPos 5) 0 movedScene =
        Inr (movedScene\<lparr>m_light_influenced_geometry := [[0]]\<rparr>)"
proof -
  have d: "detectLightInfluencedGeometry (sphereEnv movedPos 5) 0 movedScene =
        Inr (movedScene\<lparr>m_light_influenced_geometry := [[0]]\<rparr>)"
    by (simp add: detectLightInfluencedGeometry_def getPointLightFrustum_def lookupKey_def
        cullToFrustum_def matching_def ALL_LAYERS_32_def
        movedScene_def litScene_def defaultLight_def sphereEnv_def movedPos_def
        squaredLength_def vsub_def Let_def)
  show ?thesis
    using onEntityMoved_far d
    by (simp add: movedScene_def getSphere_def defaultLight_def sphereEnv_def movedPos_def
        squaredLength_def vsub_def)
qed

text \<open>
  A second defect of the same block: the light whose volume is tested for the list at index
  \<open>light_idx\<close> is looked up under the component id \<open>light_idx\<close>. Ids and indices drift
  apart once a light is destroyed: after creating a second light and destroying the first,
  the remaining light has id 1 at index 0, and the next movement notification fails on the
  missing key 0.
\<close>

lemma moved_after_light_destroyed:
  "bindE (createPointLight (sphereEnv scenePos 1) 5 litScene) (\<lambda>(c, s).
     bindE (destroyPointLight 0 s) (\<lambda>s'.
       bindE (assertE (map m_component (m_point_lights s') = [1] \<and> m_point_lights_map s' = [(1, 0)]))
         (\<lambda>_. onEntityMoved (sphereEnv scenePos 1) 0 s'))) = Inl KeyNotFound"
  by (simp add: createPointLight_def detectLightInfluencedGeometry_def getPointLightFrustum_def
      destroyPointLight_def lookupKey_def insertKey_def eraseKey_def assignKey_def assertE_def
      cullToFrustum_def matching_def ALL_LAYERS_32_def eraseFast_def
      onEntityMoved_def movedInstance_def movedLightsLoop.simps eraseItemFast_def
      updateBoundingSphere_def isValid_def
      litScene_def readyInstance_def defaultLight_def
      sphereEnv_def scenePos_def squaredLength_def vsub_def Let_def)

section \<open>Influence lists: the operations that keep them free of duplicates\<close>

text \<open>
  Destroying an instance and unloading its model take lists without duplicates to lists
  without duplicates that no longer hold the handle (for the lists of existing lights);
  the first block of the movement notification keeps them free of duplicates as well
  (\<open>movedInstance_light_membership\<close>). The path that breaks this is \<^verbatim>\<open>modelLoaded\<close> after \<^verbatim>\<open>setModel\<close> (shown with C9).
\<close>

lemma freeCustomMeshes_only_refs:
  assumes "freeCustomMeshes env r s = Inr (r', s')"
  shows "\<exists>rc. s' = s\<lparr>ref_count := rc\<rparr>"
  using assms
  by (auto simp: freeCustomMeshes_def bindE_eq_Inr only_refs_refl split: if_splits
      dest: unloadMeshMaterials_only_refs)

lemma setModel_None_geometry:
  assumes "setModel env component None s = Inr s'"
  shows "m_light_influenced_geometry s' = m_light_influenced_geometry s"
proof -
  from assms obtain inst where inst: "elemAt (m_model_instances s) component = Inr inst"
    and valid: "isValid (entity inst)"
    by (auto simp: setModel_def bindE_eq_Inr split: if_splits)
  show ?thesis
  proof (cases "model inst")
    case None
    with assms inst valid show ?thesis
      by (auto simp: setModel_def Let_def)
  next
    case (Some om)
    with assms inst valid obtain r1 s1 where
      f: "freeCustomMeshes env inst s = Inr (r1, s1)"
      and g: "m_light_influenced_geometry s' = m_light_influenced_geometry s1"
      by (auto simp: setModel_def Let_def bindE_eq_Inr unload_def split: if_splits)
    from freeCustomMeshes_only_refs [OF f] g show ?thesis by auto
  qed
qed

lemma destroyModelInstance_geometry:
  assumes "destroyModelInstance env component s = Inr s'"
  shows "m_light_influenced_geometry s' = map (remove1 component) (m_light_influenced_geometry s)"
proof -
  let ?s2 = "s\<lparr>events := events s @ [ModelInstanceDestroyed component],
               m_light_influenced_geometry := map (remove1 component) (m_light_influenced_geometry s)\<rparr>"
  from assms obtain s3 where s3: "setModel env component None ?s2 = Inr s3"
    and g: "m_light_influenced_geometry s' = m_light_influenced_geometry s3"
    by (auto simp: destroyModelInstance_def Let_def bindE_eq_Inr)
  from setModel_None_geometry [OF s3] g show ?thesis by simp
qed

lemma destroyModelInstance_keeps_lists_clean:
  assumes "destroyModelInstance env component s = Inr s'"
    and "list_all distinct (m_light_influenced_geometry s)"
  shows "list_all (\<lambda>l. distinct l \<and> component \<notin> set l) (m_light_influenced_geometry s')"
  using assms(2) unfolding destroyModelInstance_geometry [OF assms(1)]
  by (induction "m_light_influenced_geometry s") (auto simp: list_all_iff)

lemma unloadedLightsLoop_result:
  "unloadedLightsLoop n component k geom = Inr geom' \<Longrightarrow>
     length geom' = length geom
   \<and> (\<forall>j. k \<le> j \<and> j < n \<longrightarrow> j < length geom)
   \<and> (\<forall>j. j < length geom \<longrightarrow>
         geom' ! j = (if k \<le> j \<and> j < n then eraseItemFast (geom ! j) component else geom ! j))"
proof (induction n component k geom rule: unloadedLightsLoop.induct)
  case (1 n component k geom)
  show ?case
  proof (cases "k < n")
    case False
    with "1.prems" have "geom' = geom" by (subst (asm) unloadedLightsLoop.simps) simp
    with False show ?thesis by auto
  next
    case True
    with "1.prems" have kl: "k < length geom"
      by (subst (asm) unloadedLightsLoop.simps) (auto split: if_splits)
    with True "1.prems" have
      rec: "unloadedLightsLoop n component (k + 1) (geom[k := eraseItemFast (geom ! k) component]) = Inr geom'"
      by (subst (asm) unloadedLightsLoop.simps) simp
    from "1.IH" [OF True kl rec]
    have len: "length geom' = length geom"
      and rng: "\<forall>j. k + 1 \<le> j \<and> j < n \<longrightarrow> j < length geom"
      and nth: "\<forall>j. j < length geom \<longrightarrow>
         geom' ! j = (if k + 1 \<le> j \<and> j < n
                      then eraseItemFast (geom[k := eraseItemFast (geom ! k) component] ! j) component
                      else geom[k := eraseItemFast (geom ! k) component] ! j)"
      by simp_all
    have rng': "\<forall>j. k \<le> j \<and> j < n \<longrightarrow> j < length geom"
    proof (intro allI impI)
      fix j assume "k \<le> j \<and> j < n"
      then show "j < length geom" using rng kl by (cases "j = k") auto
    qed
    have "\<forall>j. j < length geom \<longrightarrow>
         geom' ! j = (if k \<le> j \<and> j < n then eraseItemFast (geom ! j) component else geom ! j)"
    proof (intro allI impI)
      fix j assume j: "j < length geom"
      show "geom' ! j = (if k \<le> j \<and> j < n then eraseItemFast (geom ! j) component else geom ! j)"
      proof (cases "j = k")
        case True
        with nth j kl \<open>k < n\<close> show ?thesis by simp
      next
        case False
        with nth j show ?thesis by (auto simp: nth_list_update)
      qed
    qed
    with len rng' show ?thesis by blast
  qed
qed

lemma modelUnloaded_keeps_lists_clean:
  assumes "modelUnloaded component s = Inr s'"
    and "list_all distinct (m_light_influenced_geometry s)"
    and "j < length (m_point_lights s)"
  shows "list_all distinct (m_light_influenced_geometry s')
       \<and> component \<notin> set (m_light_influenced_geometry s' ! j)"
proof -
  from assms(1) obtain geom' where
    loop: "unloadedLightsLoop (length (m_point_lights s)) component 0 (m_light_influenced_geometry s) = Inr geom'"
    and g: "m_light_influenced_geometry s' = geom'"
    by (auto simp: modelUnloaded_def Let_def bindE_eq_Inr)
  from unloadedLightsLoop_result [OF loop] assms(3)
  have jl: "j < length (m_light_influenced_geometry s)" by simp
  from unloadedLightsLoop_result [OF loop]
  have len: "length geom' = length (m_light_influenced_geometry s)"
    and nth: "\<forall>i. i < length (m_light_influenced_geometry s) \<longrightarrow>
         geom' ! i = (if i < length (m_point_lights s)
                      then eraseItemFast (m_light_influenced_geometry s ! i) component
                      else m_light_influenced_geometry s ! i)"
    by simp_all
  have d: "\<forall>i < length (m_light_influenced_geometry s). distinct (m_light_influenced_geometry s ! i)"
    using assms(2) by (simp add: list_all_length)
  have "list_all distinct geom'"
    unfolding list_all_length
  proof (intro allI impI)
    fix i assume "i < length geom'"
    with len have i: "i < length (m_light_influenced_geometry s)" by simp
    with nth d show "distinct (geom' ! i)"
      by (auto simp: eraseItemFast_distinct)
  qed
  moreover have "component \<notin> set (geom' ! j)"
    using nth jl assms(3) d by (simp add: eraseItemFast_distinct_removed)
  ultimately show ?thesis using g by simp
qed

end
